theory Spec2Isabelle
  imports Main "HOL-Library.Sublist" "HOL-Library.AList" "HOL-Library.Multiset"
begin

section \<open>Python values used by the collectors\<close>

text \<open>
  Strings are HOL strings; a character is read as a code point below 256. A value that
  is either a string or Python's \<open>None\<close> (the \<open>.text\<close> of an XML element) is a
  \<open>pystr\<close>. A dictionary is an association list kept in insertion order:
  \<open>AList.update\<close> overwrites the value of a key in place and appends a new key at
  the end, as item assignment on a Python dict does; \<open>map_of\<close> is the lookup.
\<close>

datatype pystr = PyNone | PyStr string

text \<open>What an f-string prints for such a value.\<close>

fun fmt :: "pystr \<Rightarrow> string" where
  "fmt PyNone = ''None''"
| "fmt (PyStr s) = s"

text \<open>\<open>str.isspace\<close> on the code points below 256, and \<open>str.strip()\<close>.\<close>

definition isspace :: "char \<Rightarrow> bool" where
  "isspace c =
     (let n = (of_char c :: nat)
      in (9 \<le> n \<and> n \<le> 13) \<or> (28 \<le> n \<and> n \<le> 32) \<or> n = 133 \<or> n = 160)"

definition strip :: "string \<Rightarrow> string" where
  "strip s = rev (dropWhile isspace (rev (dropWhile isspace s)))"

text \<open>\<open>sep.join(xs)\<close>.\<close>

fun str_join :: "string \<Rightarrow> string list \<Rightarrow> string" where
  "str_join sep [] = []"
| "str_join sep [x] = x"
| "str_join sep (x # y # ys) = x @ sep @ str_join sep (y # ys)"

text \<open>\<open>s.startswith(p)\<close> is \<open>prefix p s\<close>; \<open>sub in s\<close> is \<open>str_contains\<close>.\<close>

fun str_contains :: "string \<Rightarrow> string \<Rightarrow> bool" where
  "str_contains sub [] = (sub = [])"
| "str_contains sub (c # cs) = (prefix sub (c # cs) \<or> str_contains sub cs)"

text \<open>
  \<open>s.replace(old, new)\<close> for a non-empty \<open>old\<close>: every occurrence, left to right,
  without overlaps. (The source only calls it with \<open>old = "PMC"\<close>.)
\<close>

function str_replace :: "string \<Rightarrow> string \<Rightarrow> string \<Rightarrow> string" where
  "str_replace old new s =
     (if s = [] then []
      else if old \<noteq> [] \<and> prefix old s then new @ str_replace old new (drop (length old) s)
      else hd s # str_replace old new (tl s))"
  by pat_completeness auto
termination
  by (relation "measure (\<lambda>(old, new, s). length s)") auto

text \<open>\<open>str(i)\<close> of a Python integer: decimal digits, a minus sign when negative.\<close>

definition digit_char :: "nat \<Rightarrow> char" where
  "digit_char d = char_of (48 + d)"

fun digits :: "nat \<Rightarrow> string" where
  "digits n = (if n < 10 then [digit_char n] else digits (n div 10) @ [digit_char (n mod 10)])"

definition str_int :: "int \<Rightarrow> string" where
  "str_int i = (if i < 0 then CHR ''-'' # digits (nat (- i)) else digits (nat i))"

text \<open>\<open>enumerate(xs, 1)\<close>.\<close>

definition enumerate1 :: "'a list \<Rightarrow> (int \<times> 'a) list" where
  "enumerate1 xs = zip (map int [1 ..< Suc (length xs)]) xs"

section \<open>XML elements (xml.etree.ElementTree)\<close>

text \<open>
  An element has a tag, an attribute dictionary, the text before its first child, its
  children and the text after its end tag (\<open>tail\<close>); text and tail may be \<open>None\<close>.
  \<open>ET.fromstring\<close> drops comments and processing instructions, so every node is an
  element.
\<close>

datatype xml = Element (el_tag: string) (el_attrib: "(string \<times> string) list")
  (el_text: "string option") (el_children: "xml list") (el_tail: "string option")

definition pytext :: "xml \<Rightarrow> pystr" where
  "pytext e = (case el_text e of None \<Rightarrow> PyNone | Some s \<Rightarrow> PyStr s)"

text \<open>\<open>Element.itertext()\<close>: the text and the tails in document order, empty ones skipped.\<close>

definition truthy_text :: "string option \<Rightarrow> string list" where
  "truthy_text t = (case t of None \<Rightarrow> [] | Some s \<Rightarrow> if s = [] then [] else [s])"

fun itertext :: "xml \<Rightarrow> string list" where
  "itertext (Element t a tx cs tl0) =
     truthy_text tx @ concat (map (\<lambda>c. itertext c @ truthy_text (el_tail c)) cs)"

text \<open>All elements below an element, in document order (the element itself excluded).\<close>

fun descendants :: "xml \<Rightarrow> xml list" where
  "descendants (Element t a tx cs tl0) = concat (map (\<lambda>c. c # descendants c) cs)"

text \<open>
  The path expressions the source uses: \<open>./t\<close>, \<open>.//t\<close>, \<open>.//t[@k="v"]\<close>,
  \<open>.//t/u\<close> and \<open>.//t//u\<close>. \<open>findall\<close> returns the matches in document order and
  \<open>find\<close> the first of them or \<open>None\<close>.
\<close>

definition find_first :: "'a list \<Rightarrow> 'a option" where
  "find_first xs = (case xs of [] \<Rightarrow> None | x # _ \<Rightarrow> Some x)"

definition findall_child :: "string \<Rightarrow> xml \<Rightarrow> xml list" where
  "findall_child t e = filter (\<lambda>c. el_tag c = t) (el_children e)"

definition findall_desc :: "string \<Rightarrow> xml \<Rightarrow> xml list" where
  "findall_desc t e = filter (\<lambda>c. el_tag c = t) (descendants e)"

definition findall_desc_attr :: "string \<Rightarrow> string \<Rightarrow> string \<Rightarrow> xml \<Rightarrow> xml list" where
  "findall_desc_attr t k v e =
     filter (\<lambda>c. map_of (el_attrib c) k = Some v) (findall_desc t e)"

definition findall_desc_child :: "string \<Rightarrow> string \<Rightarrow> xml \<Rightarrow> xml list" where
  "findall_desc_child t u e = concat (map (findall_child u) (findall_desc t e))"

definition findall_desc_desc :: "string \<Rightarrow> string \<Rightarrow> xml \<Rightarrow> xml list" where
  "findall_desc_desc t u e = concat (map (findall_desc u) (findall_desc t e))"

section \<open>The XML article parser (src/parsers/xml\_parser.py)\<close>

record document =
  metadata :: "(string \<times> pystr) list"
  page_content :: string

definition extract_article_root :: "xml \<Rightarrow> xml option" where
  "extract_article_root root =
     (if el_tag root = ''article'' then Some root
      else case find_first (findall_desc ''article'' root) of
        Some article \<Rightarrow> Some article
      | None \<Rightarrow>
          (case find_first (findall_desc ''pmc-articleset'' root) of
             Some pmc_set \<Rightarrow> find_first (findall_desc ''article'' pmc_set)
           | None \<Rightarrow> None))"

definition extract_metadata :: "xml \<Rightarrow> string \<Rightarrow> (string \<times> pystr) list" where
  "extract_metadata article pmcid =
     (let metadata = [];
          metadata = AList.update ''Article Type''
            (PyStr (case map_of (el_attrib article) ''article-type'' of
                      Some v \<Rightarrow> v | None \<Rightarrow> ''Not specified'')) metadata;
          doi_elem = find_first (findall_desc_attr ''article-id'' ''pub-id-type'' ''doi'' article);
          metadata = AList.update ''DOI''
            (case doi_elem of Some d \<Rightarrow> pytext d | None \<Rightarrow> PyStr ''DOI not available'') metadata;
          pmid_elem = find_first (findall_desc_attr ''article-id'' ''pub-id-type'' ''pmid'' article);
          metadata = AList.update ''PubMed Link''
            (case pmid_elem of
               Some p \<Rightarrow> PyStr (''https://pubmed.ncbi.nlm.nih.gov/'' @ fmt (pytext p) @ ''/'')
             | None \<Rightarrow> PyStr ''Not available'') metadata;
          metadata = AList.update ''PMC Link''
            (PyStr (''https://www.ncbi.nlm.nih.gov/pmc/articles/PMC'' @ pmcid @ ''/'')) metadata;
          journal_elem = find_first (findall_desc ''journal-title'' article);
          metadata = (case journal_elem of
                        Some j \<Rightarrow> AList.update ''Journal'' (pytext j) metadata
                      | None \<Rightarrow> metadata);
          title_elem = find_first (findall_desc ''article-title'' article);
          metadata = (case title_elem of
                        Some t \<Rightarrow> AList.update ''Title'' (PyStr (str_join [] (itertext t))) metadata
                      | None \<Rightarrow> metadata);
          year_elem = find_first (findall_desc_child ''pub-date'' ''year'' article);
          metadata = (case year_elem of
                        Some y \<Rightarrow> AList.update ''Year Published'' (pytext y) metadata
                      | None \<Rightarrow> metadata)
      in metadata)"

definition extract_abstract :: "xml \<Rightarrow> string" where
  "extract_abstract article =
     (case find_first (findall_desc ''abstract'' article) of
        Some abstract_elem \<Rightarrow>
          ''ABSTRACT:\<newline>'' @ str_join '' '' (itertext abstract_elem) @ ''\<newline>\<newline>''
      | None \<Rightarrow> [])"

text \<open>
  \<open>extract_sections(parent, level)\<close>: the three parts are appended to \<open>text\<close> one
  after the other, the two loops as left folds over \<open>findall\<close>'s results.
\<close>

function extract_sections :: "xml \<Rightarrow> int \<Rightarrow> string" where
  "extract_sections parent level =
     (let text0 = [];
          text1 = (case find_first (findall_child ''title'' parent) of
                     Some title_elem \<Rightarrow>
                       text0 @ concat (replicate (nat level) '' #'') @ '' '' @
                         strip (str_join [] (itertext title_elem)) @ ''\<newline>''
                   | None \<Rightarrow> text0);
          text2 = foldl (\<lambda>acc paragraph. acc @ strip (str_join [] (itertext paragraph)) @ ''\<newline>\<newline>'')
                    text1 (findall_child ''p'' parent);
          text3 = foldl (\<lambda>acc subsection. acc @ extract_sections subsection (level + 1))
                    text2 (findall_child ''sec'' parent)
      in text3)"
  by pat_completeness auto
termination
proof (relation "measure (\<lambda>(e, l). size e)")
  show "wf (measure (\<lambda>(e, l). size e))" by simp
next
  fix parent :: xml and level :: int and x xa xb xc z
  assume "z \<in> set (findall_child ''sec'' parent)"
  then have "z \<in> set (el_children parent)"
    by (simp add: findall_child_def)
  then have "size z < size parent"
    by (cases parent) (auto simp: less_Suc_eq_le size_list_estimation')
  then show "((z, level + 1), (parent, level)) \<in> measure (\<lambda>(e, l). size e)"
    by simp
qed

definition extract_body :: "xml \<Rightarrow> string" where
  "extract_body article =
     (case find_first (findall_desc ''body'' article) of
        None \<Rightarrow> []
      | Some body_elem \<Rightarrow>
          (let text0 = [];
               text1 = foldl (\<lambda>acc section. acc @ extract_sections section 1)
                         text0 (findall_child ''sec'' body_elem);
               text2 = foldl (\<lambda>acc paragraph. acc @ strip (str_join [] (itertext paragraph)) @ ''\<newline>\<newline>'')
                         text1 (findall_child ''p'' body_elem)
           in text2))"

definition extract_tables :: "xml \<Rightarrow> string" where
  "extract_tables article =
     (let tables = findall_desc ''table-wrap'' article
      in if tables = [] then []
         else foldl (\<lambda>acc (idx, table).
                 (let acc1 = (case find_first (findall_desc ''caption'' table) of
                                Some caption_elem \<Rightarrow>
                                  acc @ ''Table '' @ str_int idx @ '': '' @
                                    str_join '' '' (itertext caption_elem) @ ''\<newline>''
                              | None \<Rightarrow> acc);
                      acc2 = (case find_first (findall_desc ''table'' table) of
                                Some table_elem \<Rightarrow>
                                  acc1 @ str_join '' '' (itertext table_elem) @ ''\<newline>\<newline>''
                              | None \<Rightarrow> acc1)
                  in acc2))
              ''TABLES:\<newline>'' (enumerate1 tables))"

definition extract_figures :: "xml \<Rightarrow> string" where
  "extract_figures article =
     (let figures = findall_desc ''fig'' article
      in if figures = [] then []
         else foldl (\<lambda>acc (idx, figure).
                 (case find_first (findall_desc ''caption'' figure) of
                    Some caption_elem \<Rightarrow>
                      acc @ ''Figure '' @ str_int idx @ '': '' @
                        str_join '' '' (itertext caption_elem) @ ''\<newline>\<newline>''
                  | None \<Rightarrow> acc))
              ''FIGURES:\<newline>'' (enumerate1 figures))"

definition extract_references :: "xml \<Rightarrow> string" where
  "extract_references article =
     (let refs = findall_desc_desc ''ref-list'' ''ref'' article
      in if refs = [] then []
         else foldl (\<lambda>acc (idx, ref).
                 acc @ str_int idx @ ''. '' @ str_join '' '' (itertext ref) @ ''\<newline>'')
              ''REFERENCES:\<newline>'' (enumerate1 refs))"

text \<open>
  \<open>parse_pmc_xml(xml_content, pmcid)\<close>. The first argument is what
  \<open>ET.fromstring(xml_content)\<close> gave: the root element, or \<open>None\<close> when decoding or
  parsing raised (caught, logged, \<open>None\<close> returned).
\<close>

definition parse_pmc_xml :: "xml option \<Rightarrow> string \<Rightarrow> document option" where
  "parse_pmc_xml parsed pmcid =
     (case parsed of
        None \<Rightarrow> None
      | Some root \<Rightarrow>
          (case extract_article_root root of
             None \<Rightarrow> None
           | Some article \<Rightarrow>
               (let doc = \<lparr>metadata = extract_metadata article pmcid, page_content = []\<rparr>;
                    doc = doc\<lparr>page_content := page_content doc @ extract_abstract article\<rparr>;
                    doc = doc\<lparr>page_content := page_content doc @ extract_body article\<rparr>;
                    doc = doc\<lparr>page_content := page_content doc @ extract_tables article\<rparr>;
                    doc = doc\<lparr>page_content := page_content doc @ extract_figures article\<rparr>;
                    doc = doc\<lparr>page_content := page_content doc @ extract_references article\<rparr>
                in Some doc)))"

text \<open>
  The text that the paragraph loops of the source build from a list of paragraph
  elements (\<open>for p in ...: text += ''.join(p.itertext()).strip() + '\n\n'\<close>), as a
  closed expression for stating results.
\<close>

definition paragraphs_text :: "xml list \<Rightarrow> string" where
  "paragraphs_text ps = concat (map (\<lambda>p. strip (concat (itertext p)) @ ''\<newline>\<newline>'') ps)"

section \<open>Full text by section in the per-DOI collector (src/collectors/paper\_collector.py)\<close>

text \<open>
  Truth values of Python objects: an \<open>Element\<close> is true when it has children,
  \<open>None\<close> and the empty string are false.
\<close>

definition elem_truthy :: "xml option \<Rightarrow> bool" where
  "elem_truthy e = (case e of None \<Rightarrow> False | Some x \<Rightarrow> el_children x \<noteq> [])"

definition py_truthy :: "pystr \<Rightarrow> bool" where
  "py_truthy v = (case v of PyNone \<Rightarrow> False | PyStr s \<Rightarrow> s \<noteq> [])"

text \<open>
  The article element \<open>get_pmc_full_text\<close> works on: \<open>root.find('.//article') or
  (root if root.tag == 'article' else None)\<close>, then the \<open>pmc-articleset\<close> fallback;
  \<open>None\<close> where the source logs that no article tag was found and returns.
\<close>

definition collector_article_tag :: "xml \<Rightarrow> xml option" where
  "collector_article_tag root =
     (let found = find_first (findall_desc ''article'' root);
          article_tag = (if elem_truthy found then found
                         else if el_tag root = ''article'' then Some root else None);
          article_tag = (if \<not> elem_truthy article_tag \<and>
                            find_first (findall_desc ''pmc-articleset'' root) \<noteq> None
                         then find_first (findall_desc_child ''pmc-articleset'' ''article'' root)
                         else article_tag)
      in if \<not> elem_truthy article_tag then None else article_tag)"

text \<open>The nested helper \<open>extract_section(parent, section_name=None)\<close>.\<close>

definition extract_section :: "xml \<Rightarrow> pystr \<Rightarrow> pystr \<times> string" where
  "extract_section parent section_name0 =
     (let text0 = [];
          section_name = (case find_first (findall_child ''title'' parent) of
                            Some sect_title \<Rightarrow> PyStr (strip (str_join [] (itertext sect_title)))
                          | None \<Rightarrow> section_name0);
          text1 = foldl (\<lambda>acc p. acc @ strip (str_join [] (itertext p)) @ ''\<newline>\<newline>'')
                    text0 (findall_child ''p'' parent)
      in (section_name, text1))"

text \<open>The loop over the body's top-level sections and their subsections.\<close>

definition collect_body_sections :: "xml \<Rightarrow> (string \<times> string) list" where
  "collect_body_sections body =
     foldl (\<lambda>full_text top_sec.
        (let (section_name, section_text) = extract_section top_sec PyNone;
             full_text1 = (if py_truthy section_name \<and> section_text \<noteq> []
                           then AList.update (fmt section_name) section_text full_text
                           else full_text)
         in foldl (\<lambda>ft subsec.
              (let (subsection_name, subsection_text) = extract_section subsec PyNone
               in if py_truthy subsection_name \<and> subsection_text \<noteq> []
                  then AList.update (fmt section_name @ '' - '' @ fmt subsection_name)
                         subsection_text ft
                  else ft))
            full_text1 (findall_child ''sec'' top_sec)))
       [] (findall_child ''sec'' body)"

text \<open>
  \<open>get_pmc_full_text\<close>, from the parsed response on: the argument is the root element
  that \<open>ET.fromstring\<close> gave, or \<open>None\<close> when the fetch, the read or the parse failed.
  The result is the dictionary stored under \<open>'full_text'\<close>.
\<close>

definition get_pmc_full_text :: "xml option \<Rightarrow> (string \<times> string) list" where
  "get_pmc_full_text parsed =
     (case parsed of
        None \<Rightarrow> []
      | Some root \<Rightarrow>
          (case collector_article_tag root of
             None \<Rightarrow> []
           | Some article_tag \<Rightarrow>
               (let body = find_first (findall_desc ''body'' article_tag);
                    full_text = (case body of Some b \<Rightarrow> collect_body_sections b | None \<Rightarrow> [])
                in case body of
                     Some b \<Rightarrow>
                       if full_text = [] then
                         (let all_paragraphs =
                                foldl (\<lambda>acc p. acc @ strip (str_join [] (itertext p)) @ ''\<newline>\<newline>'')
                                  [] (findall_desc ''p'' b)
                          in if all_paragraphs \<noteq> []
                             then AList.update ''Main Text'' all_paragraphs full_text
                             else full_text)
                       else full_text
                   | None \<Rightarrow> full_text)))"

section \<open>Retrying calls (src/api/ncbi\_client.py, src/collectors/paper\_collector.py)\<close>

text \<open>
  The wrapped operation is given by what its invocations do, in order: invocation
  \<open>k\<close> returns a value, raises an \<open>Exception\<close> whose \<open>str(e)\<close> is the given text, or
  raises something that is not an \<open>Exception\<close> (a \<open>KeyboardInterrupt\<close>), which
  \<open>except Exception\<close> does not catch. A run is recorded as the list of its events: the
  invocations (each goes through the rate limiter, whose own waiting depends on the
  clock and is not recorded), the calls of \<open>time.sleep\<close> of the retry logic, and
  the lines printed or logged. The result is the returned value, the sentinel \<open>None\<close>,
  or the propagated exception.
\<close>

datatype 'a call_outcome = Returns 'a | Raises string | RaisesBase
datatype 'a call_result = Result "'a option" | Propagates
datatype event = Call nat | Sleep int | Print string | LogMessage string

text \<open>\<open>NCBIClient\<close>: the two fields \<open>safe_call\<close> reads, set from the configuration.\<close>

record ncbi_client =
  retry_attempts :: int
  retry_delay :: int

definition NCBIConfig_RETRY_ATTEMPTS :: int where "NCBIConfig_RETRY_ATTEMPTS = 3"
definition NCBIConfig_RETRY_DELAY :: int where "NCBIConfig_RETRY_DELAY = 2"

definition NCBIClient_init :: ncbi_client where
  "NCBIClient_init = \<lparr>retry_attempts = NCBIConfig_RETRY_ATTEMPTS, retry_delay = NCBIConfig_RETRY_DELAY\<rparr>"

definition retrying_line :: "string \<Rightarrow> nat \<Rightarrow> int \<Rightarrow> string \<Rightarrow> string" where
  "retrying_line name attempt total_attempts e =
     ''Retrying '' @ name @ '' (attempt '' @ str_int (int attempt + 1) @ ''/'' @ str_int total_attempts @ ''): '' @ e"

definition failed_line :: "string \<Rightarrow> int \<Rightarrow> string \<Rightarrow> string" where
  "failed_line name total_attempts e =
     ''Failed '' @ name @ '' after '' @ str_int total_attempts @ '' attempts: '' @ e"

function safe_call_from :: "ncbi_client \<Rightarrow> string \<Rightarrow> (nat \<Rightarrow> 'a call_outcome) \<Rightarrow> nat \<Rightarrow> event list \<times> 'a call_result" where
  "safe_call_from c name func attempt =
     (if int attempt < retry_attempts c then
        (case func attempt of
           Returns v \<Rightarrow> ([Call attempt], Result (Some v))
         | RaisesBase \<Rightarrow> ([Call attempt], Propagates)
         | Raises e \<Rightarrow>
             if int attempt < retry_attempts c - 1 then
               (let (events, r) = safe_call_from c name func (attempt + 1)
                in ([Call attempt, Print (retrying_line name attempt (retry_attempts c) e),
                     Sleep (retry_delay c)] @ events, r))
             else ([Call attempt, Print (failed_line name (retry_attempts c) e)], Result None))
      else ([], Result None))"
  by pat_completeness auto
termination
  by (relation "measure (\<lambda>(c, name, func, attempt). nat (retry_attempts c) - attempt)") auto

definition safe_call :: "ncbi_client \<Rightarrow> string \<Rightarrow> (nat \<Rightarrow> 'a call_outcome) \<Rightarrow> event list \<times> 'a call_result" where
  "safe_call c name func = safe_call_from c name func 0"

definition num_calls :: "event list \<Rightarrow> nat" where
  "num_calls events = length (filter (\<lambda>e. case e of Call _ \<Rightarrow> True | _ \<Rightarrow> False) events)"

text \<open>The three events of one failed attempt that is retried.\<close>

definition retry_step :: "ncbi_client \<Rightarrow> string \<Rightarrow> (nat \<Rightarrow> string) \<Rightarrow> nat \<Rightarrow> event list" where
  "retry_step c name msg k =
     [Call k, Print (retrying_line name k (retry_attempts c) (msg k)), Sleep (retry_delay c)]"

text \<open>\<open>safe_api_call\<close> of the per-DOI collector: three tries, a longer wait on a rate-limit message.\<close>

definition rate_limited :: "string \<Rightarrow> bool" where
  "rate_limited e = (str_contains ''429'' e \<or> str_contains ''Too Many Requests'' e)"

definition tries :: nat where "tries = 3"

definition rate_limit_line :: "int \<Rightarrow> string" where
  "rate_limit_line wait_time = ''Rate limit hit, waiting '' @ str_int wait_time @ ''s before retry...''"

definition retrying_error_line :: "string \<Rightarrow> string \<Rightarrow> string" where
  "retrying_error_line name e = ''Retrying '' @ name @ '' (Error: '' @ e @ '')''"

definition failed_error_line :: "string \<Rightarrow> string \<Rightarrow> string" where
  "failed_error_line name e =
     ''Failed '' @ name @ '' after '' @ str_int (int tries) @ '' attempts (Error: '' @ e @ '')''"

function safe_api_call_from :: "string \<Rightarrow> (nat \<Rightarrow> 'a call_outcome) \<Rightarrow> nat \<Rightarrow> event list \<times> 'a call_result" where
  "safe_api_call_from name func attempt =
     (if attempt < tries then
        (case func attempt of
           Returns v \<Rightarrow> ([Call attempt], Result (Some v))
         | RaisesBase \<Rightarrow> ([Call attempt], Propagates)
         | Raises e \<Rightarrow>
             if int attempt < int tries - 1 then
               (let (events, r) = safe_api_call_from name func (attempt + 1)
                in if rate_limited e then
                     (let wait_time = 5 * (int attempt + 1)
                      in ([Call attempt, LogMessage (rate_limit_line wait_time), Sleep wait_time]
                            @ events, r))
                   else ([Call attempt, LogMessage (retrying_error_line name e), Sleep 2]
                           @ events, r))
             else ([Call attempt, LogMessage (failed_error_line name e)], Result None))
      else ([], Result None))"
  by pat_completeness auto
termination
  by (relation "measure (\<lambda>(name, func, attempt). tries - attempt)") auto

definition safe_api_call :: "string \<Rightarrow> (nat \<Rightarrow> 'a call_outcome) \<Rightarrow> event list \<times> 'a call_result" where
  "safe_api_call name func = safe_api_call_from name func 0"

section \<open>The checkpoint manager (src/collectors/checkpoint\_manager.py)\<close>

text \<open>
  The world a run acts on: the files under the save directory, each holding the object
  that \<open>pickle.dump\<close> wrote to it, and the lines printed so far. \<open>save_dir / name\<close>
  is the directory, a separator and the file name. Opening a file for writing is taken
  to succeed.
\<close>

datatype pickled =
    PickledDocuments "(string \<times> document) list"
  | PickledPmids "string list"
  | PickledMultiple "(string \<times> string list) list"

record world =
  files :: "string \<rightharpoonup> pickled"
  printed :: "string list"

definition path_join :: "string \<Rightarrow> string \<Rightarrow> string" where
  "path_join dir filename = dir @ ''/'' @ filename"

definition write_file :: "string \<Rightarrow> pickled \<Rightarrow> world \<Rightarrow> world" where
  "write_file filepath data w = w\<lparr>files := (files w)(filepath \<mapsto> data)\<rparr>"

definition print_line :: "string \<Rightarrow> world \<Rightarrow> world" where
  "print_line line w = w\<lparr>printed := printed w @ [line]\<rparr>"

definition checkpoint_filename :: "string \<Rightarrow> int \<Rightarrow> string" where
  "checkpoint_filename name batch_index = name @ ''_checkpoint_'' @ str_int batch_index @ ''.pkl''"

definition save_checkpoint ::
  "string \<Rightarrow> int \<Rightarrow> int \<Rightarrow> (string \<times> document) list \<Rightarrow> string list \<Rightarrow>
   (string \<times> string list) list \<Rightarrow> world \<Rightarrow> world" where
  "save_checkpoint save_dir batch_index num_batches documents failed multiple w =
     (let checkpoint_files =
            [(''documents'', PickledDocuments documents),
             (''failed_pmids'', PickledPmids failed),
             (''multiple_pmcids'', PickledMultiple multiple)];
          w1 = foldl (\<lambda>acc (name, data).
                  write_file (path_join save_dir (checkpoint_filename name batch_index)) data acc)
                 w checkpoint_files
      in print_line (''[Checkpoint] Saved at batch '' @ str_int (batch_index + 1) @ ''/'' @
                       str_int num_batches @ '' ('' @ str_int (int (length documents)) @
                       '' papers retrieved)'') w1)"

definition save_final_results ::
  "string \<Rightarrow> (string \<times> document) list \<Rightarrow> string list \<Rightarrow> (string \<times> string list) list \<Rightarrow>
   world \<Rightarrow> world" where
  "save_final_results save_dir documents failed multiple w =
     (let w0 = print_line ''\<newline>Saving final results...'' w;
          final_files =
            [(''documents_final.pkl'', PickledDocuments documents),
             (''failed_pmids_final.pkl'', PickledPmids failed),
             (''multiple_pmcids_final.pkl'', PickledMultiple multiple)];
          w1 = foldl (\<lambda>acc (filename, data). write_file (path_join save_dir filename) data acc)
                 w0 final_files
      in print_line ''Final results saved successfully.'' w1)"

definition checkpoint_paths :: "string \<Rightarrow> int \<Rightarrow> string list" where
  "checkpoint_paths save_dir batch_index =
     map (\<lambda>name. path_join save_dir (checkpoint_filename name batch_index))
       [''documents'', ''failed_pmids'', ''multiple_pmcids'']"

section \<open>The batch fetcher (src/collectors/pmc\_downloader.py)\<close>

text \<open>
  What the code reads of one article record of the parsed PubMed response: the text of
  \<open>article['MedlineCitation']['PMID']\<close> and the texts of the items of
  \<open>article['PubmedData']['ArticleIdList']\<close>; \<open>None\<close> where the lookup raises.
\<close>

datatype pubmed_article =
  PubmedArticle (art_pmid: "string option") (art_ids: "string list option")

text \<open>
  What \<open>client.fetch_and_parse\<close> gave for the batch: \<open>None\<close> (the call or the parse
  failed), a value without a \<open>get\<close> method (\<open>records.get\<close> raises), or a dictionary,
  with its \<open>'PubmedArticle'\<close> entry if it has one.
\<close>

datatype fetch_result = FetchFailed | NotAMapping | Records "pubmed_article list option"

text \<open>
  The remote service as the downloader sees it: the answer to the combined metadata
  request for a comma-joined identifier list, and for a stripped PMC identifier the
  root element of the fetched full text (\<open>None\<close> when the fetch returned \<open>None\<close>,
  reading the handle raised, or \<open>ET.fromstring\<close> raised).
\<close>

record remote =
  fetch_and_parse_pubmed :: "string \<Rightarrow> fetch_result"
  fetch_pmc :: "string \<Rightarrow> xml option"

text \<open>The three collections a batch and the whole run return.\<close>

record outcome_set =
  failed_pmids :: "string list"
  multiple_pmcids :: "(string \<times> string list) list"
  retrieved_documents :: "(string \<times> document) list"

definition empty_outcome :: outcome_set where
  "empty_outcome = \<lparr>failed_pmids = [], multiple_pmcids = [], retrieved_documents = []\<rparr>"

definition download_article :: "remote \<Rightarrow> string \<Rightarrow> document option" where
  "download_article env pmcid =
     (let pmcid_stripped = (if prefix ''PMC'' pmcid then str_replace ''PMC'' [] pmcid else pmcid)
      in parse_pmc_xml (fetch_pmc env pmcid_stripped) pmcid_stripped)"

text \<open>
  The body of the loop over the articles: the \<open>try\<close> block, with the \<open>except\<close>
  branch for each lookup that may raise (without a PMID only a line is printed; with
  one, \<open>if pmid:\<close> decides whether it is recorded as failed).
\<close>

definition process_article :: "remote \<Rightarrow> outcome_set \<Rightarrow> pubmed_article \<Rightarrow> outcome_set" where
  "process_article env st article =
     (case art_pmid article of
        None \<Rightarrow> st
      | Some pmid \<Rightarrow>
          (case art_ids article of
             None \<Rightarrow> if pmid \<noteq> [] then st\<lparr>failed_pmids := failed_pmids st @ [pmid]\<rparr> else st
           | Some article_ids \<Rightarrow>
               (case filter (prefix ''PMC'') article_ids of
                  [] \<Rightarrow> st\<lparr>failed_pmids := failed_pmids st @ [pmid]\<rparr>
                | first_pmcid # others \<Rightarrow>
                    (let pmcids = first_pmcid # others;
                         st1 = (if 1 < length pmcids
                                then st\<lparr>multiple_pmcids := AList.update pmid pmcids (multiple_pmcids st)\<rparr>
                                else st)
                     in case download_article env first_pmcid of
                          Some document \<Rightarrow>
                            st1\<lparr>retrieved_documents :=
                                  AList.update pmid
                                    (document\<lparr>metadata :=
                                        AList.update ''PMCID'' (PyStr first_pmcid) (metadata document)\<rparr>)
                                    (retrieved_documents st1)\<rparr>
                        | None \<Rightarrow> st1\<lparr>failed_pmids := failed_pmids st1 @ [pmid]\<rparr>))))"

definition fetch_pmcids_from_pmids :: "remote \<Rightarrow> string list \<Rightarrow> string + outcome_set" where
  "fetch_pmcids_from_pmids env pmid_batch =
     (let joined_ids = str_join '','' pmid_batch
      in case fetch_and_parse_pubmed env joined_ids of
           FetchFailed \<Rightarrow> Inr (empty_outcome\<lparr>failed_pmids := [] @ pmid_batch\<rparr>)
         | NotAMapping \<Rightarrow> Inl ''AttributeError''
         | Records entry \<Rightarrow>
             (let articles = (case entry of Some articles \<Rightarrow> articles | None \<Rightarrow> [])
              in Inr (foldl (process_article env) empty_outcome articles)))"

text \<open>
  For stating results: the article records of the response to a batch; the PMIDs that
  can be read from them; a response that has exactly one record, with a readable and
  non-empty PMID, for each distinct identifier of the batch (or a failed call); and an
  outcome in which every identifier of a list is a key of the documents or a member of
  the failed list, and none is both.
\<close>

definition response_articles :: "remote \<Rightarrow> string list \<Rightarrow> pubmed_article list" where
  "response_articles env pmid_batch =
     (case fetch_and_parse_pubmed env (str_join '','' pmid_batch) of
        Records (Some articles) \<Rightarrow> articles
      | _ \<Rightarrow> [])"

definition response_pmids :: "pubmed_article list \<Rightarrow> string list" where
  "response_pmids articles =
     concat (map (\<lambda>article. case art_pmid article of None \<Rightarrow> [] | Some pmid \<Rightarrow> [pmid]) articles)"

definition complete_response :: "remote \<Rightarrow> string list \<Rightarrow> bool" where
  "complete_response env pmid_batch =
     (case fetch_and_parse_pubmed env (str_join '','' pmid_batch) of
        FetchFailed \<Rightarrow> True
      | NotAMapping \<Rightarrow> False
      | Records entry \<Rightarrow>
          (let articles = (case entry of Some articles \<Rightarrow> articles | None \<Rightarrow> [])
           in (\<forall>article \<in> set articles. art_pmid article \<noteq> None \<and> art_pmid article \<noteq> Some []) \<and>
              distinct (response_pmids articles) \<and>
              set (response_pmids articles) = set pmid_batch))"

definition exactly_one_outcome :: "string list \<Rightarrow> outcome_set \<Rightarrow> bool" where
  "exactly_one_outcome ids r =
     (fst ` set (retrieved_documents r) \<union> set (failed_pmids r) = set ids \<and>
      fst ` set (retrieved_documents r) \<inter> set (failed_pmids r) = {})"

text \<open>
  \<open>[id_list[i:i + batch_size] for i in range(0, len(id_list), batch_size)]\<close>: the
  slices from index \<open>i\<close> on. \<open>range\<close> raises for a step of zero and is empty for a
  negative one.
\<close>

function batches_from :: "'a list \<Rightarrow> nat \<Rightarrow> nat \<Rightarrow> 'a list list" where
  "batches_from id_list batch_size i =
     (if 0 < batch_size \<and> i < length id_list
      then take batch_size (drop i id_list) # batches_from id_list batch_size (i + batch_size)
      else [])"
  by pat_completeness auto
termination
  by (relation "measure (\<lambda>(id_list, batch_size, i). length id_list - i)") auto

definition make_batches :: "string list \<Rightarrow> int \<Rightarrow> string + string list list" where
  "make_batches id_list batch_size =
     (if batch_size = 0 then Inl ''ValueError: range() arg 3 must not be zero''
      else Inr (batches_from id_list (nat batch_size) 0))"

text \<open>\<open>d.update(other)\<close>, and the merge of one batch's collections into the totals.\<close>

definition dict_update :: "('k \<times> 'v) list \<Rightarrow> ('k \<times> 'v) list \<Rightarrow> ('k \<times> 'v) list" where
  "dict_update d other = foldl (\<lambda>acc (k, v). AList.update k v acc) d other"

definition merge_batch :: "outcome_set \<Rightarrow> outcome_set \<Rightarrow> outcome_set" where
  "merge_batch totals batch =
     \<lparr>failed_pmids = failed_pmids totals @ failed_pmids batch,
      multiple_pmcids = dict_update (multiple_pmcids totals) (multiple_pmcids batch),
      retrieved_documents = dict_update (retrieved_documents totals) (retrieved_documents batch)\<rparr>"

text \<open>
  The loop over \<open>as_completed(futures)\<close>. The results of the batches arrive in the
  order the scheduler completes them; a result is what \<open>fetch_pmcids_from_pmids\<close>
  returned or the exception it raised. The progress callback acts on the world and may
  raise (the text of the exception); an \<open>Exception\<close> is caught and printed. A
  \<open>KeyboardInterrupt\<close> may arrive while the loop waits for completion number
  \<open>i\<close>; it is not caught here, and the totals, local to the function, are lost.
\<close>

type_synonym callback =
  "int \<Rightarrow> int \<Rightarrow> (string \<times> document) list \<Rightarrow> string list \<Rightarrow> (string \<times> string list) list \<Rightarrow>
   world \<Rightarrow> world \<times> string option"

datatype download_outcome = Completed outcome_set | Interrupted | Crashed string

fun completion_loop ::
  "callback option \<Rightarrow> nat \<Rightarrow> nat option \<Rightarrow> nat \<Rightarrow> (string + outcome_set) list \<Rightarrow>
   outcome_set \<Rightarrow> world \<Rightarrow> download_outcome \<times> world" where
  "completion_loop progress_callback n interrupt i [] totals w = (Completed totals, w)"
| "completion_loop progress_callback n interrupt i (result # rest) totals w =
     (if interrupt = Some i then (Interrupted, w)
      else case result of
        Inl exc \<Rightarrow>
          completion_loop progress_callback n interrupt (i + 1) rest totals
            (print_line (''Batch failed with exception: '' @ exc) w)
      | Inr batch \<Rightarrow>
          (let totals1 = merge_batch totals batch;
               w1 = (case progress_callback of
                       None \<Rightarrow> w
                     | Some f \<Rightarrow>
                         (case f (int i) (int n) (retrieved_documents totals1)
                                 (failed_pmids totals1) (multiple_pmcids totals1) w of
                            (w', None) \<Rightarrow> w'
                          | (w', Some exc) \<Rightarrow>
                              print_line (''Batch failed with exception: '' @ exc) w'))
           in completion_loop progress_callback n interrupt (i + 1) rest totals1 w1))"

text \<open>
  \<open>download_batch_parallel\<close>. \<open>as_completed\<close> is the order in which the submitted
  batches complete; \<open>interrupt\<close> is the completion before which a
  \<open>KeyboardInterrupt\<close> arrives, if any. \<open>ThreadPoolExecutor\<close> raises for a
  worker count that is not positive.
\<close>

definition download_batch_parallel ::
  "remote \<Rightarrow> (string list list \<Rightarrow> string list list) \<Rightarrow> nat option \<Rightarrow>
   string list \<Rightarrow> int \<Rightarrow> int \<Rightarrow> callback option \<Rightarrow> world \<Rightarrow> download_outcome \<times> world" where
  "download_batch_parallel env as_completed interrupt id_list batch_size num_threads
       progress_callback w =
     (case make_batches id_list batch_size of
        Inl exc \<Rightarrow> (Crashed exc, w)
      | Inr batches \<Rightarrow>
          if num_threads \<le> 0 then (Crashed ''ValueError: max_workers must be greater than 0'', w)
          else completion_loop progress_callback (length batches) interrupt 0
                 (map (fetch_pmcids_from_pmids env) (as_completed batches)) empty_outcome w)"

section \<open>The download script (scripts/download\_full\_texts.py)\<close>

text \<open>
  The progress callback of \<open>main\<close>, and \<open>main\<close> from the point where the search
  has returned the identifier list. \<open>elapsed_line\<close> is the printed line that reports
  the elapsed time. The result is the world left behind and the exit code.
\<close>

definition progress_callback :: "string \<Rightarrow> int \<Rightarrow> callback" where
  "progress_callback output_dir checkpoint_interval batch_idx num_batches documents failed multiple w =
     (if batch_idx = 0 then
        (save_checkpoint output_dir batch_idx num_batches documents failed multiple w, None)
      else if checkpoint_interval = 0 then (w, Some ''ZeroDivisionError'')
      else if (batch_idx + 1) mod checkpoint_interval = 0 \<or> batch_idx + 1 = num_batches then
        (save_checkpoint output_dir batch_idx num_batches documents failed multiple w, None)
      else (w, None))"

definition summary_lines :: "string \<Rightarrow> outcome_set \<Rightarrow> string list" where
  "summary_lines elapsed_line r =
     [''\<newline>'' @ replicate 80 CHR ''='', ''Download Summary'', replicate 80 CHR ''='',
      elapsed_line,
      ''Total papers successfully retrieved: '' @ str_int (int (length (retrieved_documents r))),
      ''Total papers that failed: '' @ str_int (int (length (failed_pmids r))),
      ''Papers with multiple PMC IDs: '' @ str_int (int (length (multiple_pmcids r))),
      replicate 80 CHR ''='']"

definition main_download ::
  "remote \<Rightarrow> (string list list \<Rightarrow> string list list) \<Rightarrow> nat option \<Rightarrow> string \<Rightarrow>
   string \<Rightarrow> int \<Rightarrow> string list \<Rightarrow> int \<Rightarrow> int \<Rightarrow> world \<Rightarrow> world \<times> int" where
  "main_download env as_completed interrupt elapsed_line output_dir checkpoint_interval
       id_list batch_size threads w =
     (if id_list = [] then (print_line ''No papers found matching the query.'' w, 0)
      else
        (let w1 = print_line (''\<newline>Starting download with '' @ str_int threads @
                    '' threads, batch size '' @ str_int batch_size @ ''...'') w
         in case download_batch_parallel env as_completed interrupt id_list batch_size threads
                   (Some (progress_callback output_dir checkpoint_interval)) w1 of
              (Interrupted, w2) \<Rightarrow>
                (print_line ''\<newline>Process interrupted by user. Saving progress...'' w2, 1)
            | (Crashed exc, w2) \<Rightarrow> (print_line (''\<newline>Error during download: '' @ exc) w2, 1)
            | (Completed r, w2) \<Rightarrow>
                (save_final_results output_dir (retrieved_documents r) (failed_pmids r)
                   (multiple_pmcids r) (foldl (\<lambda>acc line. print_line line acc) w2
                      (summary_lines elapsed_line r)), 0)))"

section \<open>Example inputs\<close>

definition bare_article :: xml where
  "bare_article = Element ''article'' [] None [] None"

definition nested_paragraph_body :: xml where
  "nested_paragraph_body =
     Element ''body'' [] None
       [Element ''boxed-text'' [] None [Element ''p'' [] (Some ''deep'') [] None] None] None"

definition nested_paragraph_article :: xml where
  "nested_paragraph_article = Element ''article'' [] None [nested_paragraph_body] None"

definition rate_limited_twice :: "nat \<Rightarrow> string call_outcome" where
  "rate_limited_twice k = (if k < 2 then Raises ''HTTP Error 429: Too Many Requests'' else Returns ''ok'')"

definition doc_a :: document where
  "doc_a = \<lparr>metadata = [(''PMCID'', PyStr ''PMC1'')], page_content = ''alpha''\<rparr>"

definition doc_b :: document where
  "doc_b = \<lparr>metadata = [(''PMCID'', PyStr ''PMC2'')], page_content = ''beta''\<rparr>"

definition empty_world :: world where
  "empty_world = \<lparr>files = Map.empty, printed = []\<rparr>"

definition article_one :: xml where
  "article_one = Element ''article'' [] None
     [Element ''body'' [] None [Element ''p'' [] (Some ''one'') [] None] None] None"

definition remote_missing :: remote where
  "remote_missing = \<lparr>fetch_and_parse_pubmed = (\<lambda>ids. Records (Some [])),
                      fetch_pmc = (\<lambda>pmcid. None)\<rparr>"

definition remote_two :: remote where
  "remote_two = \<lparr>fetch_and_parse_pubmed = (\<lambda>ids.
        if ids = ''123'' then
          Records (Some [PubmedArticle (Some ''123'') (Some [''10.1/x'', ''PMC1'', ''PMC2''])])
        else if ids = ''1,2'' then
          Records (Some [PubmedArticle (Some ''1'') (Some [''PMC7'']),
                         PubmedArticle (Some ''2'') (Some [''10.1/y''])])
        else FetchFailed),
      fetch_pmc = (\<lambda>pmcid. if pmcid = ''1'' \<or> pmcid = ''7'' then Some article_one else None)\<rparr>"

definition remote_unavailable :: remote where
  "remote_unavailable =
     \<lparr>fetch_and_parse_pubmed =
        (\<lambda>ids. Records (Some [PubmedArticle (Some ''123'') (Some [''PMC1'', ''PMC2''])])),
      fetch_pmc = (\<lambda>pmcid. None)\<rparr>"

section \<open>Properties of the XML article parser\<close>

declare extract_sections.simps [simp del]

lemma map_of_update_same: "map_of (AList.update k v al) k = Some v"
  by (simp add: update_conv')

lemma map_of_update_other: "k' \<noteq> k \<Longrightarrow> map_of (AList.update k v al) k' = map_of al k'"
  by (simp add: update_conv')

lemma map_of_opt_update_other:
  "k' \<noteq> k \<Longrightarrow>
   map_of (case x of None \<Rightarrow> m | Some j \<Rightarrow> AList.update k (f j) m) k' = map_of m k'"
  by (cases x) (simp_all add: update_conv')

lemma map_of_opt_update_same:
  "(map_of (case x of None \<Rightarrow> m | Some j \<Rightarrow> AList.update k (f j) m) k = None) =
   (x = None \<and> map_of m k = None)"
  by (cases x) (simp_all add: update_conv')

lemmas md_simps =
  map_of_opt_update_other map_of_update_same map_of_update_other map_of_opt_update_same

lemma find_first_None: "(find_first xs = None) = (xs = [])"
  by (cases xs) (simp_all add: find_first_def)

lemma foldl_append_concat: "foldl (\<lambda>acc x. acc @ f x) a xs = a @ concat (map f xs)"
  by (induction xs arbitrary: a) simp_all

lemma str_join_empty_gen: "sep = [] \<Longrightarrow> str_join sep xs = concat xs"
  by (induction sep xs rule: str_join.induct) simp_all

lemma str_join_empty: "str_join [] xs = concat xs"
  by (simp add: str_join_empty_gen)

lemma marker_count: "length (filter (\<lambda>c. c = CHR ''#'') (concat (replicate n '' #''))) = n"
  by (induction n) simp_all

text \<open>
  C10. Whatever the article element and the PMC identifier, the metadata dictionary has
  the keys Article Type, DOI, PubMed Link and PMC Link, and the PMC Link is the fixed
  URL template with the identifier put in.
\<close>

theorem extract_metadata_fixed_keys:
  "map_of (extract_metadata article pmcid) ''Article Type'' \<noteq> None \<and>
   map_of (extract_metadata article pmcid) ''DOI'' \<noteq> None \<and>
   map_of (extract_metadata article pmcid) ''PubMed Link'' \<noteq> None \<and>
   map_of (extract_metadata article pmcid) ''PMC Link'' =
     Some (PyStr (''https://www.ncbi.nlm.nih.gov/pmc/articles/PMC'' @ pmcid @ ''/''))"
  unfolding extract_metadata_def Let_def
  by (simp add: md_simps del: AList.update.simps)

text \<open>
  C2, as the code has it. The claim asks for an entry for each of the seven fields. The
  code gives a placeholder to Article Type, DOI and PubMed Link when their node is
  absent; Journal, Title and Year Published are assigned only under
  \<open>if ... is not None\<close>, so each of these keys is present exactly when its node is found.
\<close>

theorem extract_metadata_placeholders:
  "(map_of (el_attrib article) ''article-type'' = None \<longrightarrow>
      map_of (extract_metadata article pmcid) ''Article Type'' = Some (PyStr ''Not specified'')) \<and>
   (findall_desc_attr ''article-id'' ''pub-id-type'' ''doi'' article = [] \<longrightarrow>
      map_of (extract_metadata article pmcid) ''DOI'' = Some (PyStr ''DOI not available'')) \<and>
   (findall_desc_attr ''article-id'' ''pub-id-type'' ''pmid'' article = [] \<longrightarrow>
      map_of (extract_metadata article pmcid) ''PubMed Link'' = Some (PyStr ''Not available'')) \<and>
   ((map_of (extract_metadata article pmcid) ''Journal'' \<noteq> None) =
      (findall_desc ''journal-title'' article \<noteq> [])) \<and>
   ((map_of (extract_metadata article pmcid) ''Title'' \<noteq> None) =
      (findall_desc ''article-title'' article \<noteq> [])) \<and>
   ((map_of (extract_metadata article pmcid) ''Year Published'' \<noteq> None) =
      (findall_desc_child ''pub-date'' ''year'' article \<noteq> []))"
proof (intro conjI impI)
  assume "map_of (el_attrib article) ''article-type'' = None"
  then show "map_of (extract_metadata article pmcid) ''Article Type'' = Some (PyStr ''Not specified'')"
    unfolding extract_metadata_def Let_def
    by (simp add: md_simps del: AList.update.simps)
next
  assume "findall_desc_attr ''article-id'' ''pub-id-type'' ''doi'' article = []"
  then show "map_of (extract_metadata article pmcid) ''DOI'' = Some (PyStr ''DOI not available'')"
    unfolding extract_metadata_def Let_def
    by (simp add: md_simps find_first_def del: AList.update.simps)
next
  assume "findall_desc_attr ''article-id'' ''pub-id-type'' ''pmid'' article = []"
  then show "map_of (extract_metadata article pmcid) ''PubMed Link'' = Some (PyStr ''Not available'')"
    unfolding extract_metadata_def Let_def
    by (simp add: md_simps find_first_def del: AList.update.simps)
next
  show "(map_of (extract_metadata article pmcid) ''Journal'' \<noteq> None) =
      (findall_desc ''journal-title'' article \<noteq> [])"
    unfolding extract_metadata_def Let_def
    by (simp add: md_simps find_first_None del: AList.update.simps)
next
  show "(map_of (extract_metadata article pmcid) ''Title'' \<noteq> None) =
      (findall_desc ''article-title'' article \<noteq> [])"
    unfolding extract_metadata_def Let_def
    by (simp add: md_simps find_first_None del: AList.update.simps)
next
  show "(map_of (extract_metadata article pmcid) ''Year Published'' \<noteq> None) =
      (findall_desc_child ''pub-date'' ''year'' article \<noteq> [])"
    unfolding extract_metadata_def Let_def
    by (simp add: md_simps find_first_None del: AList.update.simps)
qed

lemma bare_article_findall:
  "el_attrib bare_article = []"
  "findall_desc t bare_article = []"
  "findall_desc_attr t k v bare_article = []"
  "findall_desc_child t u bare_article = []"
  by (simp_all add: bare_article_def findall_desc_def findall_desc_attr_def
      findall_desc_child_def)

theorem extract_metadata_placeholders_witness:
  "map_of (el_attrib bare_article) ''article-type'' = None \<and>
   findall_desc_attr ''article-id'' ''pub-id-type'' ''doi'' bare_article = [] \<and>
   findall_desc_attr ''article-id'' ''pub-id-type'' ''pmid'' bare_article = [] \<and>
   map_of (extract_metadata bare_article ''1'') ''Article Type'' = Some (PyStr ''Not specified'') \<and>
   map_of (extract_metadata bare_article ''1'') ''DOI'' = Some (PyStr ''DOI not available'') \<and>
   map_of (extract_metadata bare_article ''1'') ''PubMed Link'' = Some (PyStr ''Not available'') \<and>
   map_of (extract_metadata bare_article ''1'') ''Year Published'' = None"
  using extract_metadata_placeholders [of bare_article "''1''"]
  by (simp add: bare_article_findall)

text \<open>
  The claim fails for an article element with no children: the dictionary has no entry
  for Journal (nor for Title).
\<close>

theorem extract_metadata_missing_key_counterexample:
  "map_of (extract_metadata bare_article ''1'') ''Journal'' = None \<and>
   map_of (extract_metadata bare_article ''1'') ''Title'' = None"
  unfolding extract_metadata_def Let_def
  by (simp add: bare_article_findall find_first_def)

text \<open>
  C8. For every element and level, \<open>extract_sections\<close> returns, in this order: the
  title line when the element has a title child (the marker, a space followed by
  \<open>#\<close>, repeated \<open>level\<close> times, then a space, the stripped title text and a newline),
  then the stripped text of each direct paragraph child followed by an empty line, then
  the result of \<open>extract_sections\<close> at \<open>level + 1\<close> for each direct \<open>sec\<close> child in
  document order. The marker holds exactly \<open>level\<close> \<open>#\<close> characters.
\<close>

theorem extract_sections_order:
  "extract_sections parent level =
     (case find_first (findall_child ''title'' parent) of
        None \<Rightarrow> []
      | Some title_elem \<Rightarrow>
          concat (replicate (nat level) '' #'') @ '' '' @
            strip (concat (itertext title_elem)) @ ''\<newline>'') @
     paragraphs_text (findall_child ''p'' parent) @
     concat (map (\<lambda>subsection. extract_sections subsection (level + 1))
       (findall_child ''sec'' parent)) \<and>
   length (filter (\<lambda>c. c = CHR ''#'') (concat (replicate (nat level) '' #''))) = nat level"
  by (subst extract_sections.simps, cases "find_first (findall_child ''title'' parent)")
     (simp_all add: Let_def foldl_append_concat str_join_empty marker_count paragraphs_text_def)

text \<open>
  C3, as the code has it. When the body has no \<open>sec\<close> child, \<open>extract_body\<close> (the
  parser that \<open>parse_pmc_xml\<close> uses) returns the text of the body's direct paragraph
  children only; the fallback to every paragraph anywhere inside the body is in the
  per-DOI collector's \<open>get_pmc_full_text\<close>, which stores that text under the single
  section name \<open>Main Text\<close> (and stores nothing when the body has no paragraph).
\<close>

theorem body_without_sections:
  assumes "find_first (findall_desc ''body'' article) = Some body"
    and "findall_child ''sec'' body = []"
  shows "extract_body article = paragraphs_text (findall_child ''p'' body) \<and>
         (collector_article_tag root = Some article \<longrightarrow>
            get_pmc_full_text (Some root) =
              (if findall_desc ''p'' body = [] then []
               else [(''Main Text'', paragraphs_text (findall_desc ''p'' body))]))"
proof (intro conjI impI)
  show "extract_body article = paragraphs_text (findall_child ''p'' body)"
    using assms
    by (simp add: extract_body_def Let_def foldl_append_concat str_join_empty paragraphs_text_def)
next
  assume "collector_article_tag root = Some article"
  moreover have "collect_body_sections body = []"
    using assms(2) by (simp add: collect_body_sections_def)
  moreover have "(paragraphs_text (findall_desc ''p'' body) = []) = (findall_desc ''p'' body = [])"
    by (cases "findall_desc ''p'' body") (simp_all add: paragraphs_text_def)
  ultimately show "get_pmc_full_text (Some root) =
      (if findall_desc ''p'' body = [] then []
       else [(''Main Text'', paragraphs_text (findall_desc ''p'' body))])"
    using assms(1)
    by (simp add: get_pmc_full_text_def Let_def foldl_append_concat str_join_empty
        paragraphs_text_def)
qed

lemma nested_paragraph_body_find:
  "find_first (findall_desc ''body'' nested_paragraph_article) = Some nested_paragraph_body"
  by (simp add: nested_paragraph_article_def nested_paragraph_body_def findall_desc_def
      find_first_def)

lemma nested_paragraph_body_parts:
  "findall_child ''sec'' nested_paragraph_body = []"
  "findall_child ''p'' nested_paragraph_body = []"
  "findall_desc ''p'' nested_paragraph_body = [Element ''p'' [] (Some ''deep'') [] None]"
  by (simp_all add: nested_paragraph_body_def findall_desc_def findall_child_def)

lemma nested_paragraph_article_tag:
  "collector_article_tag nested_paragraph_article = Some nested_paragraph_article"
  by (simp add: collector_article_tag_def Let_def elem_truthy_def find_first_def
      findall_desc_def findall_desc_child_def findall_child_def
      nested_paragraph_article_def nested_paragraph_body_def)

lemma strip_deep: "strip ''deep'' = ''deep''"
  by (simp add: strip_def isspace_def)

theorem body_without_sections_witness:
  "find_first (findall_desc ''body'' nested_paragraph_article) = Some nested_paragraph_body \<and>
   findall_child ''sec'' nested_paragraph_body = [] \<and>
   collector_article_tag nested_paragraph_article = Some nested_paragraph_article \<and>
   extract_body nested_paragraph_article = [] \<and>
   get_pmc_full_text (Some nested_paragraph_article) = [(''Main Text'', ''deep\<newline>\<newline>'')]"
  using body_without_sections [OF nested_paragraph_body_find nested_paragraph_body_parts(1),
      of nested_paragraph_article]
  by (simp add: nested_paragraph_body_find nested_paragraph_body_parts
      nested_paragraph_article_tag paragraphs_text_def truthy_text_def strip_deep)

text \<open>
  The claim fails for a body whose only paragraph lies inside a \<open>boxed-text\<close> element:
  the body has no section, the paragraphs anywhere inside it give the text
  \<open>deep\<close> followed by an empty line, and \<open>extract_body\<close> returns the empty string.
\<close>

theorem extract_body_fallback_counterexample:
  "find_first (findall_desc ''body'' nested_paragraph_article) = Some nested_paragraph_body \<and>
   findall_child ''sec'' nested_paragraph_body = [] \<and>
   paragraphs_text (findall_desc ''p'' nested_paragraph_body) = ''deep\<newline>\<newline>'' \<and>
   extract_body nested_paragraph_article = []"
  by (simp add: nested_paragraph_body_find nested_paragraph_body_parts extract_body_def
      Let_def paragraphs_text_def truthy_text_def strip_deep)

section \<open>Properties of the retrying calls\<close>

declare safe_call_from.simps [simp del]

lemma safe_call_from_all_fail:
  assumes "\<forall>k < n. func k = Raises (msg k)" and "retry_attempts c = int n"
  shows "a < n \<Longrightarrow> safe_call_from c name func a =
     (concat (map (retry_step c name msg) [a ..< n - 1]) @
        [Call (n - 1), Print (failed_line name (retry_attempts c) (msg (n - 1)))], Result None)"
proof (induction "n - a" arbitrary: a)
  case 0
  then show ?case by simp
next
  case (Suc d)
  show ?case
  proof (cases "a = n - 1")
    case True
    with Suc.prems assms show ?thesis
      by (subst safe_call_from.simps) simp
  next
    case False
    with Suc.prems have lt: "a < n - 1" by simp
    then have "d = n - Suc a" "Suc a < n" using Suc.hyps(2) by simp_all
    from Suc.hyps(1)[OF this] have IH: "safe_call_from c name func (Suc a) =
      (concat (map (retry_step c name msg) [Suc a ..< n - 1]) @
        [Call (n - 1), Print (failed_line name (retry_attempts c) (msg (n - 1)))], Result None)" .
    have "[a ..< n - 1] = a # [Suc a ..< n - 1]" using lt by (simp add: upt_conv_Cons)
    with lt Suc.prems assms IH show ?thesis
      by (subst safe_call_from.simps) (simp add: retry_step_def)
  qed
qed

lemma safe_call_from_success:
  assumes "\<forall>j < k. func j = Raises (msg j)" and "func k = Returns v" and "int k < retry_attempts c"
  shows "a \<le> k \<Longrightarrow> safe_call_from c name func a =
     (concat (map (retry_step c name msg) [a ..< k]) @ [Call k], Result (Some v))"
proof (induction "k - a" arbitrary: a)
  case 0
  with assms show ?case by (subst safe_call_from.simps) simp
next
  case (Suc d)
  then have lt: "a < k" by simp
  then have "d = k - Suc a" "Suc a \<le> k" using Suc.hyps(2) by simp_all
  from Suc.hyps(1)[OF this] have IH: "safe_call_from c name func (Suc a) =
     (concat (map (retry_step c name msg) [Suc a ..< k]) @ [Call k], Result (Some v))" .
  have "[a ..< k] = a # [Suc a ..< k]" using lt by (simp add: upt_conv_Cons)
  with lt assms IH show ?case
    by (subst safe_call_from.simps) (simp add: retry_step_def)
qed

lemma num_calls_steps:
  "num_calls (concat (map (retry_step c name msg) ks) @ rest) = length ks + num_calls rest"
  by (induction ks) (simp_all add: num_calls_def retry_step_def)

declare safe_api_call_from.simps [simp del]

text \<open>
  C6. For a client whose \<open>retry_attempts\<close> is \<open>n > 0\<close> (the configuration sets 3):
  when each of the \<open>n\<close> invocations raises, \<open>safe_call\<close> invokes the operation exactly
  \<open>n\<close> times, prints a retry line and sleeps \<open>retry_delay\<close> after each of the first
  \<open>n - 1\<close>, prints the failure line after the last and returns \<open>None\<close>; when
  invocation \<open>k < n\<close> is the first to return, its value is the result, after \<open>k\<close>
  retries and with no failure line.
\<close>

theorem safe_call_retry_contract:
  assumes "retry_attempts c = int n" and "0 < n"
  shows "((\<forall>k < n. func k = Raises (msg k)) \<longrightarrow>
            safe_call c name func =
              (concat (map (retry_step c name msg) [0 ..< n - 1]) @
                 [Call (n - 1), Print (failed_line name (int n) (msg (n - 1)))], Result None) \<and>
            num_calls (fst (safe_call c name func)) = n) \<and>
         (\<forall>k v. k < n \<and> (\<forall>j < k. func j = Raises (msg j)) \<and> func k = Returns v \<longrightarrow>
            safe_call c name func =
              (concat (map (retry_step c name msg) [0 ..< k]) @ [Call k], Result (Some v)))"
proof (intro conjI impI allI)
  assume fail: "\<forall>k < n. func k = Raises (msg k)"
  from safe_call_from_all_fail [OF fail assms(1), of 0 name] assms
  show run: "safe_call c name func =
      (concat (map (retry_step c name msg) [0 ..< n - 1]) @
         [Call (n - 1), Print (failed_line name (int n) (msg (n - 1)))], Result None)"
    by (simp add: safe_call_def)
  show "num_calls (fst (safe_call c name func)) = n"
    using assms(2) by (simp add: run num_calls_steps) (simp add: num_calls_def)
next
  fix k v
  assume h: "k < n \<and> (\<forall>j < k. func j = Raises (msg j)) \<and> func k = Returns v"
  then have "int k < retry_attempts c" using assms(1) by simp
  from safe_call_from_success [of k func msg v c 0 name] h this
  show "safe_call c name func =
      (concat (map (retry_step c name msg) [0 ..< k]) @ [Call k], Result (Some v))"
    by (simp add: safe_call_def)
qed

lemma upt_small: "[0 ..< 2] = [0, Suc 0]" "[0 ..< Suc 0] = [0]"
  by (simp_all add: upt_rec)

theorem safe_call_retry_contract_witness:
  "retry_attempts NCBIClient_init = int 3 \<and> (0::nat) < 3 \<and>
   safe_call NCBIClient_init ''efetch'' (\<lambda>k. Raises ''timeout'' :: nat call_outcome) =
     ([Call 0, Print (retrying_line ''efetch'' 0 3 ''timeout''), Sleep 2,
       Call 1, Print (retrying_line ''efetch'' 1 3 ''timeout''), Sleep 2,
       Call 2, Print (failed_line ''efetch'' 3 ''timeout'')], Result None) \<and>
   num_calls (fst (safe_call NCBIClient_init ''efetch'' (\<lambda>k. Raises ''timeout'' :: nat call_outcome))) = 3 \<and>
   safe_call NCBIClient_init ''efetch'' (\<lambda>k. if k = 0 then Raises ''timeout'' else Returns (7::nat)) =
     ([Call 0, Print (retrying_line ''efetch'' 0 3 ''timeout''), Sleep 2, Call 1], Result (Some 7))"
proof -
  have c: "retry_attempts NCBIClient_init = int 3" "(0::nat) < 3"
    by (simp_all add: NCBIClient_init_def NCBIConfig_RETRY_ATTEMPTS_def)
  have d: "retry_delay NCBIClient_init = 2"
    by (simp add: NCBIClient_init_def NCBIConfig_RETRY_DELAY_def)
  note t1 = safe_call_retry_contract [OF c, of "\<lambda>k. Raises ''timeout'' :: nat call_outcome"
      "\<lambda>k. ''timeout''" "''efetch''"]
  note t2 = safe_call_retry_contract [OF c,
      of "\<lambda>k. if k = 0 then Raises ''timeout'' else Returns (7::nat)" "\<lambda>k. ''timeout''" "''efetch''"]
  from t2 have "\<forall>k v. k < 3 \<and>
      (\<forall>j < k. (if j = 0 then Raises ''timeout'' else Returns (7::nat)) = Raises ''timeout'') \<and>
      (if k = 0 then Raises ''timeout'' else Returns (7::nat)) = Returns v \<longrightarrow>
      safe_call NCBIClient_init ''efetch'' (\<lambda>k. if k = 0 then Raises ''timeout'' else Returns (7::nat)) =
        (concat (map (retry_step NCBIClient_init ''efetch'' (\<lambda>k. ''timeout'')) [0 ..< k]) @ [Call k],
         Result (Some v))"
    by (rule conjunct2)
  from this [rule_format, of 1 7]
  have t2': "safe_call NCBIClient_init ''efetch'' (\<lambda>k. if k = 0 then Raises ''timeout'' else Returns (7::nat)) =
      (concat (map (retry_step NCBIClient_init ''efetch'' (\<lambda>k. ''timeout'')) [0 ..< 1]) @ [Call 1],
       Result (Some 7))"
    by simp
  show ?thesis
    using t1 t2' c d
    by (simp add: retry_step_def upt_small numeral_2_eq_2 num_calls_def)
qed

lemma safe_api_call_from_retry:
  assumes "func a = Raises e" and "a < 2"
  shows "safe_api_call_from name func a =
     ((if rate_limited e
       then [Call a, LogMessage (rate_limit_line (5 * (int a + 1))), Sleep (5 * (int a + 1))]
       else [Call a, LogMessage (retrying_error_line name e), Sleep 2]) @
        fst (safe_api_call_from name func (Suc a)),
      snd (safe_api_call_from name func (Suc a)))"
  using assms
  by (subst safe_api_call_from.simps) (simp add: tries_def Let_def split: prod.split)

lemma safe_api_call_from_returns:
  assumes "func a = Returns v" and "a < 3"
  shows "safe_api_call_from name func a = ([Call a], Result (Some v))"
  using assms by (subst safe_api_call_from.simps) (simp add: tries_def)

text \<open>
  C7. In \<open>safe_api_call\<close>, a failure of attempt \<open>k\<close> (0 or 1, the attempts that are
  retried) whose text contains \<open>429\<close> or \<open>Too Many Requests\<close> is followed by the
  rate-limit log line and a sleep of \<open>5 * (k + 1)\<close> seconds (5, then 10) in place of the
  2 seconds of other failures. A call that fails twice with a text containing \<open>429\<close> and
  then returns gives that value; its events are the three invocations, two log lines
  and two sleeps, with no failure line.
\<close>

theorem safe_api_call_backoff:
  "(\<forall>k. k < 2 \<and> (\<forall>j \<le> k. func j = Raises (msg j)) \<and> rate_limited (msg k) \<longrightarrow>
      take 3 (drop (3 * k) (fst (safe_api_call name func))) =
        [Call k, LogMessage (rate_limit_line (5 * (int k + 1))), Sleep (5 * (int k + 1))]) \<and>
   (func 0 = Raises e0 \<and> func 1 = Raises e1 \<and> str_contains ''429'' e0 \<and>
    str_contains ''429'' e1 \<and> func 2 = Returns v \<longrightarrow>
      safe_api_call name func =
        ([Call 0, LogMessage (rate_limit_line 5), Sleep 5,
          Call 1, LogMessage (rate_limit_line 10), Sleep 10, Call 2], Result (Some v)))"
proof (intro conjI allI impI)
  fix k
  assume h: "k < 2 \<and> (\<forall>j \<le> k. func j = Raises (msg j)) \<and> rate_limited (msg k)"
  then have "k = 0 \<or> k = 1" by auto
  then show "take 3 (drop (3 * k) (fst (safe_api_call name func))) =
      [Call k, LogMessage (rate_limit_line (5 * (int k + 1))), Sleep (5 * (int k + 1))]"
  proof
    assume "k = 0"
    with h show ?thesis
      by (simp add: safe_api_call_def safe_api_call_from_retry [of func 0 "msg 0"])
  next
    assume k: "k = 1"
    with h have f: "func 0 = Raises (msg 0)" "func (Suc 0) = Raises (msg (Suc 0))"
      "rate_limited (msg (Suc 0))" by simp_all
    show ?thesis
      by (simp add: k safe_api_call_def safe_api_call_from_retry [of func 0, OF f(1)]
          safe_api_call_from_retry [of func "Suc 0", OF f(2)] f(3))
  qed
next
  assume h: "func 0 = Raises e0 \<and> func 1 = Raises e1 \<and> str_contains ''429'' e0 \<and>
    str_contains ''429'' e1 \<and> func 2 = Returns v"
  then have f: "func 0 = Raises e0" "func (Suc 0) = Raises e1" "func (Suc (Suc 0)) = Returns v"
    "rate_limited e0" "rate_limited e1"
    by (simp_all add: rate_limited_def numeral_2_eq_2)
  show "safe_api_call name func =
      ([Call 0, LogMessage (rate_limit_line 5), Sleep 5,
        Call 1, LogMessage (rate_limit_line 10), Sleep 10, Call 2], Result (Some v))"
    by (simp add: safe_api_call_def safe_api_call_from_retry [of func 0, OF f(1)]
        safe_api_call_from_retry [of func "Suc 0", OF f(2)]
        safe_api_call_from_returns [of func "Suc (Suc 0)", OF f(3)] f(4,5) numeral_2_eq_2)
qed

lemma contains_429: "str_contains ''429'' ''HTTP Error 429: Too Many Requests''"
  by simp

theorem safe_api_call_backoff_witness:
  "rate_limited_twice 0 = Raises ''HTTP Error 429: Too Many Requests'' \<and>
   rate_limited_twice 1 = Raises ''HTTP Error 429: Too Many Requests'' \<and>
   rate_limited_twice 2 = Returns ''ok'' \<and>
   str_contains ''429'' ''HTTP Error 429: Too Many Requests'' \<and>
   take 3 (drop 3 (fst (safe_api_call ''get'' rate_limited_twice))) =
     [Call 1, LogMessage (rate_limit_line 10), Sleep 10] \<and>
   safe_api_call ''get'' rate_limited_twice =
     ([Call 0, LogMessage (rate_limit_line 5), Sleep 5,
       Call 1, LogMessage (rate_limit_line 10), Sleep 10, Call 2], Result (Some ''ok''))"
proof -
  note t = safe_api_call_backoff [of rate_limited_twice "\<lambda>k. ''HTTP Error 429: Too Many Requests''"
      "''get''" "''HTTP Error 429: Too Many Requests''" "''HTTP Error 429: Too Many Requests''" "''ok''"]
  have r: "rate_limited_twice 0 = Raises ''HTTP Error 429: Too Many Requests''"
    "rate_limited_twice 1 = Raises ''HTTP Error 429: Too Many Requests''"
    "rate_limited_twice 2 = Returns ''ok''"
    by (simp_all add: rate_limited_twice_def)
  have rl: "rate_limited ''HTTP Error 429: Too Many Requests''"
    unfolding rate_limited_def using contains_429 by blast
  have a: "\<forall>j \<le> 1. rate_limited_twice j = Raises ''HTTP Error 429: Too Many Requests''"
    by (simp add: rate_limited_twice_def)
  from t have "\<forall>k. k < 2 \<and> (\<forall>j \<le> k. rate_limited_twice j = Raises ''HTTP Error 429: Too Many Requests'') \<and>
      rate_limited ''HTTP Error 429: Too Many Requests'' \<longrightarrow>
      take 3 (drop (3 * k) (fst (safe_api_call ''get'' rate_limited_twice))) =
        [Call k, LogMessage (rate_limit_line (5 * (int k + 1))), Sleep (5 * (int k + 1))]"
    by (rule conjunct1)
  from this [rule_format, of 1] a rl
  have p1: "take 3 (drop 3 (fst (safe_api_call ''get'' rate_limited_twice))) =
     [Call 1, LogMessage (rate_limit_line 10), Sleep 10]"
    by simp
  from t r contains_429 have p2: "safe_api_call ''get'' rate_limited_twice =
     ([Call 0, LogMessage (rate_limit_line 5), Sleep 5,
       Call 1, LogMessage (rate_limit_line 10), Sleep 10, Call 2], Result (Some ''ok''))"
    by blast
  show ?thesis using r contains_429 p1 p2 by blast
qed

section \<open>Properties of the checkpoint manager\<close>

declare digits.simps [simp del] str_replace.simps [simp del]

lemma digit_char_inj: "a < 10 \<Longrightarrow> b < 10 \<Longrightarrow> digit_char a = digit_char b \<Longrightarrow> a = b"
proof -
  assume a: "a < 10" and b: "b < 10" and e: "digit_char a = digit_char b"
  then have "(of_char (char_of (48 + a)) :: nat) = of_char (char_of (48 + b))"
    by (simp add: digit_char_def)
  with a b show "a = b" by (simp add: of_char_of)
qed

lemma digit_char_not_minus: "d < 10 \<Longrightarrow> digit_char d \<noteq> CHR ''-''"
proof
  assume d: "d < 10" and "digit_char d = CHR ''-''"
  then have "(of_char (char_of (48 + d)) :: nat) = of_char (CHR ''-'')"
    by (simp add: digit_char_def)
  with d show False by (simp add: of_char_of)
qed

lemma digits_length_one: "(length (digits n) = 1) = (n < 10)"
  by (subst digits.simps) (auto simp: digits.simps[of "n div 10"])

lemma digits_inj: "digits m = digits n \<Longrightarrow> m = n"
proof (induction m arbitrary: n rule: digits.induct)
  case (1 m)
  show ?case
  proof (cases "m < 10")
    case True
    then have "length (digits m) = 1" by (simp only: digits_length_one)
    then have "length (digits n) = 1" using "1.prems" by simp
    then have n: "n < 10" by (simp only: digits_length_one)
    with True "1.prems" have "digit_char m = digit_char n"
      by (simp add: digits.simps[of m] digits.simps[of n])
    with True n show ?thesis by (rule digit_char_inj)
  next
    case False
    then have "length (digits m) \<noteq> 1" by (simp only: digits_length_one) simp
    then have "length (digits n) \<noteq> 1" using "1.prems" by simp
    then have n: "\<not> n < 10" by (simp only: digits_length_one) simp
    from False n "1.prems"
    have e: "digits (m div 10) @ [digit_char (m mod 10)] = digits (n div 10) @ [digit_char (n mod 10)]"
      by (simp add: digits.simps[of m] digits.simps[of n])
    then have "digits (m div 10) = digits (n div 10)" and "digit_char (m mod 10) = digit_char (n mod 10)"
      by simp_all
    with "1.IH"[OF False] have "m div 10 = n div 10" "m mod 10 = n mod 10"
      by (simp_all add: digit_char_inj)
    then show ?thesis by (metis div_mult_mod_eq)
  qed
qed

lemma digits_no_minus: "CHR ''-'' \<notin> set (digits n)"
proof (induction n rule: digits.induct)
  case (1 n)
  show ?case
  proof (cases "n < 10")
    case True
    then show ?thesis using digit_char_not_minus[of n] by (auto simp: digits.simps[of n])
  next
    case False
    with "1.IH" digit_char_not_minus[of "n mod 10"] show ?thesis
      by (auto simp: digits.simps[of n])
  qed
qed

lemma digits_nonempty: "digits n \<noteq> []"
  by (subst digits.simps) simp

lemma str_int_inj: "str_int i = str_int j \<Longrightarrow> i = j"
proof -
  assume e: "str_int i = str_int j"
  have hd_neg: "\<And>n. hd (digits n) \<noteq> CHR ''-''"
    using digits_no_minus digits_nonempty by (metis hd_in_set)
  show "i = j"
  proof (cases "i < 0"; cases "j < 0")
    assume "i < 0" "j < 0"
    with e have "digits (nat (- i)) = digits (nat (- j))" by (simp add: str_int_def)
    then have "nat (- i) = nat (- j)" by (rule digits_inj)
    with \<open>i < 0\<close> \<open>j < 0\<close> show ?thesis by simp
  next
    assume "i < 0" "\<not> j < 0"
    with e have "CHR ''-'' # digits (nat (- i)) = digits (nat j)" by (simp add: str_int_def)
    then have "hd (digits (nat j)) = CHR ''-''" by (metis list.sel(1))
    with hd_neg show ?thesis by simp
  next
    assume "\<not> i < 0" "j < 0"
    with e have "digits (nat i) = CHR ''-'' # digits (nat (- j))" by (simp add: str_int_def)
    then have "hd (digits (nat i)) = CHR ''-''" by (metis list.sel(1))
    with hd_neg show ?thesis by simp
  next
    assume "\<not> i < 0" "\<not> j < 0"
    with e have "digits (nat i) = digits (nat j)" by (simp add: str_int_def)
    then have "nat i = nat j" by (rule digits_inj)
    with \<open>\<not> i < 0\<close> \<open>\<not> j < 0\<close> show ?thesis by simp
  qed
qed

lemma checkpoint_filename_inj:
  assumes "n1 \<in> {''documents'', ''failed_pmids'', ''multiple_pmcids''}"
    and "n2 \<in> {''documents'', ''failed_pmids'', ''multiple_pmcids''}"
    and "checkpoint_filename n1 j = checkpoint_filename n2 k"
  shows "n1 = n2 \<and> j = k"
proof -
  from assms have n: "n1 = n2"
    by (auto simp: checkpoint_filename_def)
  with assms(3) have "str_int j = str_int k"
    by (simp add: checkpoint_filename_def)
  then have "j = k" by (rule str_int_inj)
  with n show ?thesis by simp
qed

lemma checkpoint_paths_disjoint:
  assumes "j \<noteq> k"
  shows "set (checkpoint_paths dir j) \<inter> set (checkpoint_paths dir k) = {}"
proof -
  have "\<And>p. p \<in> set (checkpoint_paths dir j) \<Longrightarrow> p \<in> set (checkpoint_paths dir k) \<Longrightarrow> False"
  proof -
    fix p
    assume "p \<in> set (checkpoint_paths dir j)"
    then obtain n1 where n1: "n1 \<in> {''documents'', ''failed_pmids'', ''multiple_pmcids''}"
      and p1: "p = path_join dir (checkpoint_filename n1 j)"
      by (auto simp: checkpoint_paths_def)
    assume "p \<in> set (checkpoint_paths dir k)"
    then obtain n2 where n2: "n2 \<in> {''documents'', ''failed_pmids'', ''multiple_pmcids''}"
      and p2: "p = path_join dir (checkpoint_filename n2 k)"
      by (auto simp: checkpoint_paths_def)
    from p1 p2 have "checkpoint_filename n1 j = checkpoint_filename n2 k"
      by (simp add: path_join_def)
    from checkpoint_filename_inj [OF n1 n2 this] assms show False by simp
  qed
  then show ?thesis by blast
qed

lemma files_save_checkpoint:
  "files (save_checkpoint dir k nb d f m w) =
     (files w)(path_join dir (checkpoint_filename ''documents'' k) \<mapsto> PickledDocuments d,
               path_join dir (checkpoint_filename ''failed_pmids'' k) \<mapsto> PickledPmids f,
               path_join dir (checkpoint_filename ''multiple_pmcids'' k) \<mapsto> PickledMultiple m)"
  by (simp add: save_checkpoint_def Let_def write_file_def print_line_def)

lemma save_checkpoint_other:
  "p \<notin> set (checkpoint_paths dir k) \<Longrightarrow> files (save_checkpoint dir k nb d f m w) p = files w p"
  by (simp add: files_save_checkpoint checkpoint_paths_def)

lemma checkpoint_names_differ:
  "checkpoint_filename ''documents'' k \<noteq> checkpoint_filename ''failed_pmids'' k"
  "checkpoint_filename ''documents'' k \<noteq> checkpoint_filename ''multiple_pmcids'' k"
  "checkpoint_filename ''failed_pmids'' k \<noteq> checkpoint_filename ''multiple_pmcids'' k"
  by (simp_all add: checkpoint_filename_def)

lemma save_checkpoint_written:
  "map (files (save_checkpoint dir k nb d f m w)) (checkpoint_paths dir k) =
     [Some (PickledDocuments d), Some (PickledPmids f), Some (PickledMultiple m)]"
  using checkpoint_names_differ [of k]
  by (simp add: files_save_checkpoint checkpoint_paths_def path_join_def)

text \<open>
  C9. For two different batch indices \<open>j\<close> and \<open>k\<close>, the files of checkpoint \<open>j\<close> and
  those of checkpoint \<open>k\<close> have different names; \<open>save_checkpoint\<close> at index \<open>k\<close>
  changes no file other than the three keyed by \<open>k\<close>; and after \<open>save_checkpoint\<close>
  at \<open>j\<close> and then at \<open>k\<close> (with any documents, failures and mappings), the three
  files of checkpoint \<open>j\<close> hold what the save at \<open>j\<close> wrote.
\<close>

theorem save_checkpoint_frame:
  assumes "j \<noteq> k"
  shows "set (checkpoint_paths dir j) \<inter> set (checkpoint_paths dir k) = {} \<and>
     (\<forall>p. p \<notin> set (checkpoint_paths dir k) \<longrightarrow>
        files (save_checkpoint dir k nk dk fk mk w) p = files w p) \<and>
     map (files (save_checkpoint dir k nk dk fk mk (save_checkpoint dir j nj dj fj mj w)))
         (checkpoint_paths dir j) =
       map (files (save_checkpoint dir j nj dj fj mj w)) (checkpoint_paths dir j) \<and>
     map (files (save_checkpoint dir k nk dk fk mk (save_checkpoint dir j nj dj fj mj w)))
         (checkpoint_paths dir j) =
       [Some (PickledDocuments dj), Some (PickledPmids fj), Some (PickledMultiple mj)]"
proof -
  have disj: "set (checkpoint_paths dir j) \<inter> set (checkpoint_paths dir k) = {}"
    using assms by (rule checkpoint_paths_disjoint)
  have keep: "map (files (save_checkpoint dir k nk dk fk mk (save_checkpoint dir j nj dj fj mj w)))
         (checkpoint_paths dir j) =
       map (files (save_checkpoint dir j nj dj fj mj w)) (checkpoint_paths dir j)"
  proof (rule map_cong [OF refl])
    fix p assume "p \<in> set (checkpoint_paths dir j)"
    with disj have "p \<notin> set (checkpoint_paths dir k)" by blast
    then show "files (save_checkpoint dir k nk dk fk mk (save_checkpoint dir j nj dj fj mj w)) p =
        files (save_checkpoint dir j nj dj fj mj w) p"
      by (rule save_checkpoint_other)
  qed
  show ?thesis
    using disj keep save_checkpoint_written [of dir j nj dj fj mj w]
    by (simp add: save_checkpoint_other)
qed

theorem save_checkpoint_frame_witness:
  "(0::int) \<noteq> 1 \<and>
   checkpoint_paths ''out'' 0 =
     [''out/documents_checkpoint_0.pkl'', ''out/failed_pmids_checkpoint_0.pkl'',
      ''out/multiple_pmcids_checkpoint_0.pkl''] \<and>
   map (files (save_checkpoint ''out'' 1 2 [(''1'', doc_a), (''2'', doc_b)] [''3''] []
                 (save_checkpoint ''out'' 0 2 [(''1'', doc_a)] [] [] empty_world)))
       (checkpoint_paths ''out'' 0) =
     [Some (PickledDocuments [(''1'', doc_a)]), Some (PickledPmids []), Some (PickledMultiple [])]"
proof -
  have ne: "(0::int) \<noteq> 1" by simp
  have "char_of (48::nat) = CHR ''0''" by code_simp
  then have "digits 0 = ''0''"
    by (simp add: digits.simps digit_char_def)
  then have p: "checkpoint_paths ''out'' 0 =
     [''out/documents_checkpoint_0.pkl'', ''out/failed_pmids_checkpoint_0.pkl'',
      ''out/multiple_pmcids_checkpoint_0.pkl'']"
    by (simp add: checkpoint_paths_def path_join_def checkpoint_filename_def str_int_def)
  from save_checkpoint_frame [OF ne, where dir = "''out''" and nk = 2
      and dk = "[(''1'', doc_a), (''2'', doc_b)]" and fk = "[''3'']" and mk = "[]" and nj = 2
      and dj = "[(''1'', doc_a)]" and fj = "[]" and mj = "[]" and w = empty_world]
  have "map (files (save_checkpoint ''out'' 1 2 [(''1'', doc_a), (''2'', doc_b)] [''3''] []
                 (save_checkpoint ''out'' 0 2 [(''1'', doc_a)] [] [] empty_world)))
       (checkpoint_paths ''out'' 0) =
     [Some (PickledDocuments [(''1'', doc_a)]), Some (PickledPmids []), Some (PickledMultiple [])]"
    by blast
  with ne p show ?thesis by blast
qed

section \<open>Properties of the batch fetcher\<close>

declare batches_from.simps [simp del]

lemma keys_update: "fst ` set (AList.update k v al) = insert k (fst ` set al)"
  by (simp add: dom_update)

lemma keys_dict_update: "fst ` set (dict_update d other) = fst ` set d \<union> fst ` set other"
  unfolding dict_update_def
proof (induction other arbitrary: d)
  case Nil
  show ?case by simp
next
  case (Cons x other)
  obtain k v where x: "x = (k, v)" by (cases x)
  have "fst ` set (foldl (\<lambda>acc (k, v). AList.update k v acc) (AList.update k v d) other) =
      fst ` set (AList.update k v d) \<union> fst ` set other"
    by (rule Cons.IH)
  then show ?case unfolding keys_update by (simp add: x)
qed

lemma process_article_no_pmid: "art_pmid a = None \<Longrightarrow> process_article env st a = st"
  by (simp add: process_article_def)

lemma process_article_outcomes:
  assumes "art_pmid a = Some p" and "p \<noteq> []"
  shows "fst ` set (retrieved_documents (process_article env st a)) \<union>
           set (failed_pmids (process_article env st a)) =
         insert p (fst ` set (retrieved_documents st) \<union> set (failed_pmids st))"
  using assms
  by (auto simp: process_article_def Let_def keys_update split: option.splits list.splits)

lemma process_article_disjoint:
  assumes "art_pmid a = Some p"
    and "p \<notin> fst ` set (retrieved_documents st) \<union> set (failed_pmids st)"
    and "fst ` set (retrieved_documents st) \<inter> set (failed_pmids st) = {}"
  shows "fst ` set (retrieved_documents (process_article env st a)) \<inter>
           set (failed_pmids (process_article env st a)) = {}"
  using assms
  by (auto simp: process_article_def Let_def keys_update split: option.splits list.splits)

lemma foldl_process_partition:
  assumes "\<forall>a \<in> set arts. art_pmid a \<noteq> None \<and> art_pmid a \<noteq> Some []"
    and "distinct (response_pmids arts)"
    and "set (response_pmids arts) \<inter>
           (fst ` set (retrieved_documents st) \<union> set (failed_pmids st)) = {}"
    and "fst ` set (retrieved_documents st) \<inter> set (failed_pmids st) = {}"
  shows "fst ` set (retrieved_documents (foldl (process_article env) st arts)) \<union>
           set (failed_pmids (foldl (process_article env) st arts)) =
         fst ` set (retrieved_documents st) \<union> set (failed_pmids st) \<union> set (response_pmids arts) \<and>
         fst ` set (retrieved_documents (foldl (process_article env) st arts)) \<inter>
           set (failed_pmids (foldl (process_article env) st arts)) = {}"
  using assms
proof (induction arts arbitrary: st)
  case Nil
  then show ?case by (simp add: response_pmids_def)
next
  case (Cons a arts)
  from Cons.prems(1) obtain p where p: "art_pmid a = Some p" "p \<noteq> []" by auto
  let ?st = "process_article env st a"
  have rp: "response_pmids (a # arts) = p # response_pmids arts"
    using p by (simp add: response_pmids_def)
  have u: "fst ` set (retrieved_documents ?st) \<union> set (failed_pmids ?st) =
      insert p (fst ` set (retrieved_documents st) \<union> set (failed_pmids st))"
    using p by (rule process_article_outcomes)
  have pnew: "p \<notin> fst ` set (retrieved_documents st) \<union> set (failed_pmids st)"
    using Cons.prems(3) rp by auto
  have d: "fst ` set (retrieved_documents ?st) \<inter> set (failed_pmids ?st) = {}"
    using p(1) pnew Cons.prems(4) by (rule process_article_disjoint)
  have a1: "\<forall>a \<in> set arts. art_pmid a \<noteq> None \<and> art_pmid a \<noteq> Some []"
    using Cons.prems(1) by simp
  have a2: "distinct (response_pmids arts)" using Cons.prems(2) rp by simp
  have a3: "set (response_pmids arts) \<inter>
      (fst ` set (retrieved_documents ?st) \<union> set (failed_pmids ?st)) = {}"
    using Cons.prems(2,3) rp u by auto
  from Cons.IH [OF a1 a2 a3 d] u rp show ?case by auto
qed

lemma fetch_pmcids_partition:
  assumes "complete_response env batch"
  shows "\<exists>r. fetch_pmcids_from_pmids env batch = Inr r \<and> exactly_one_outcome batch r"
proof (cases "fetch_and_parse_pubmed env (str_join '','' batch)")
  case FetchFailed
  then show ?thesis
    by (simp add: fetch_pmcids_from_pmids_def exactly_one_outcome_def empty_outcome_def)
next
  case NotAMapping
  with assms show ?thesis by (simp add: complete_response_def)
next
  case (Records entry)
  define arts where "arts = (case entry of Some articles \<Rightarrow> articles | None \<Rightarrow> [])"
  from assms Records have c: "\<forall>a \<in> set arts. art_pmid a \<noteq> None \<and> art_pmid a \<noteq> Some []"
    "distinct (response_pmids arts)" "set (response_pmids arts) = set batch"
    by (simp_all add: complete_response_def Let_def arts_def)
  have "fst ` set (retrieved_documents (foldl (process_article env) empty_outcome arts)) \<union>
           set (failed_pmids (foldl (process_article env) empty_outcome arts)) =
         fst ` set (retrieved_documents empty_outcome) \<union> set (failed_pmids empty_outcome) \<union>
           set (response_pmids arts) \<and>
         fst ` set (retrieved_documents (foldl (process_article env) empty_outcome arts)) \<inter>
           set (failed_pmids (foldl (process_article env) empty_outcome arts)) = {}"
    by (rule foldl_process_partition [OF c(1,2)]) (simp_all add: empty_outcome_def)
  with c(3) Records show ?thesis
    by (simp add: fetch_pmcids_from_pmids_def Let_def exactly_one_outcome_def arts_def
        empty_outcome_def)
qed

lemma concat_batches_from:
  "0 < n \<Longrightarrow> concat (batches_from xs n i) = drop i xs"
proof (induction xs n i rule: batches_from.induct)
  case (1 id_list batch_size i)
  show ?case
  proof (cases "i < length id_list")
    case True
    with 1 have "concat (batches_from id_list batch_size (i + batch_size)) =
        drop batch_size (drop i id_list)"
      by (simp add: add.commute)
    then show ?thesis
      using True "1.prems" by (subst batches_from.simps) (simp del: drop_drop)
  next
    case False
    then show ?thesis by (subst batches_from.simps) simp
  qed
qed

lemma completion_loop_all_returned:
  "fst (completion_loop cb n None i (map Inr rs) totals w) = Completed (foldl merge_batch totals rs)"
  by (induction rs arbitrary: i totals w) (simp_all add: Let_def)

lemma keys_foldl_merge:
  "fst ` set (retrieved_documents (foldl merge_batch t rs)) =
     fst ` set (retrieved_documents t) \<union> (\<Union>r \<in> set rs. fst ` set (retrieved_documents r))"
  by (induction rs arbitrary: t) (auto simp: merge_batch_def keys_dict_update)

lemma failed_foldl_merge:
  "set (failed_pmids (foldl merge_batch t rs)) =
     set (failed_pmids t) \<union> (\<Union>r \<in> set rs. set (failed_pmids r))"
  by (induction rs arbitrary: t) (auto simp: merge_batch_def)

lemma download_batch_parallel_partition:
  assumes bs: "0 < batch_size" and nt: "0 < num_threads" and dist: "distinct id_list"
    and resp: "\<forall>b \<in> set (batches_from id_list (nat batch_size) 0). complete_response env b"
    and perm: "mset (as_completed (batches_from id_list (nat batch_size) 0)) =
               mset (batches_from id_list (nat batch_size) 0)"
  shows "\<exists>r w'. download_batch_parallel env as_completed None id_list batch_size num_threads cb w =
           (Completed r, w') \<and> exactly_one_outcome id_list r"
proof -
  define batches where "batches = batches_from id_list (nat batch_size) 0"
  define R where "R b = projr (fetch_pmcids_from_pmids env b)" for b
  define rs where "rs = map R (as_completed batches)"
  define total where "total = foldl merge_batch empty_outcome rs"
  have one: "fetch_pmcids_from_pmids env b = Inr (R b) \<and> exactly_one_outcome b (R b)"
    if "b \<in> set batches" for b
  proof -
    from that resp have "complete_response env b" by (simp add: batches_def)
    from fetch_pmcids_partition [OF this] show ?thesis by (auto simp: R_def)
  qed
  have sets: "set (as_completed batches) = set batches"
    using perm unfolding batches_def by (rule mset_eq_setD)
  have results: "map (fetch_pmcids_from_pmids env) (as_completed batches) = map Inr rs"
    using one sets by (simp add: rs_def)
  have cat: "concat batches = id_list"
    using bs by (simp add: batches_def concat_batches_from)
  have run: "fst (download_batch_parallel env as_completed None id_list batch_size num_threads cb w) =
      Completed total"
    using bs nt
    by (simp add: download_batch_parallel_def make_batches_def batches_def [symmetric] results
        completion_loop_all_returned total_def)
  have K: "fst ` set (retrieved_documents total) = (\<Union>b \<in> set batches. fst ` set (retrieved_documents (R b)))"
    by (simp add: total_def keys_foldl_merge rs_def sets empty_outcome_def)
  have F: "set (failed_pmids total) = (\<Union>b \<in> set batches. set (failed_pmids (R b)))"
    by (simp add: total_def failed_foldl_merge rs_def sets empty_outcome_def)
  have part: "fst ` set (retrieved_documents (R b)) \<union> set (failed_pmids (R b)) = set b"
    "fst ` set (retrieved_documents (R b)) \<inter> set (failed_pmids (R b)) = {}"
    if "b \<in> set batches" for b
    using one [OF that] by (simp_all add: exactly_one_outcome_def)
  have union: "fst ` set (retrieved_documents total) \<union> set (failed_pmids total) = set id_list"
  proof -
    have "fst ` set (retrieved_documents total) \<union> set (failed_pmids total) =
        (\<Union>b \<in> set batches. fst ` set (retrieved_documents (R b)) \<union> set (failed_pmids (R b)))"
      unfolding K F by blast
    also have "\<dots> = (\<Union>b \<in> set batches. set b)"
      using part(1) by simp
    also have "\<dots> = set (concat batches)" by simp
    finally show ?thesis by (simp add: cat)
  qed
  have apart: "set b1 \<inter> set b2 = {}" if "b1 \<in> set batches" "b2 \<in> set batches" "b1 \<noteq> b2" for b1 b2
  proof -
    from dist cat have "distinct (concat batches)" by simp
    with that show ?thesis by (simp add: distinct_concat_iff)
  qed
  have inter: "fst ` set (retrieved_documents total) \<inter> set (failed_pmids total) = {}"
  proof (rule ccontr)
    assume "fst ` set (retrieved_documents total) \<inter> set (failed_pmids total) \<noteq> {}"
    then obtain x b1 b2 where b: "b1 \<in> set batches" "b2 \<in> set batches"
      and x1: "x \<in> fst ` set (retrieved_documents (R b1))" and x2: "x \<in> set (failed_pmids (R b2))"
      unfolding K F by blast
    from part(1) [OF b(1)] x1 have i1: "x \<in> set b1" by blast
    from part(1) [OF b(2)] x2 have i2: "x \<in> set b2" by blast
    show False
    proof (cases "b1 = b2")
      case True
      with part(2) [OF b(1)] x1 x2 show False by blast
    next
      case False
      from apart [OF b False] i1 i2 show False by blast
    qed
  qed
  have "download_batch_parallel env as_completed None id_list batch_size num_threads cb w =
      (Completed total, snd (download_batch_parallel env as_completed None id_list batch_size num_threads cb w))"
    using run by (metis prod.collapse)
  moreover have "exactly_one_outcome id_list total"
    using union inter by (simp add: exactly_one_outcome_def)
  ultimately show ?thesis by blast
qed

text \<open>
  C1, as the code has it. The outcome is built from the article records of the response,
  not from the input list. When the combined call fails, or when the response has
  exactly one record with a readable, non-empty PMID for each distinct identifier of
  the batch, every identifier of the batch is a key of the returned documents or a
  member of the returned failed list, and none is both. For the whole list this holds
  when the batch size and the worker count are positive, no identifier occurs twice in
  the list, every batch has such a response and every batch completes once.
\<close>

theorem outcome_partition:
  "(complete_response env pmid_batch \<longrightarrow>
      (\<exists>r. fetch_pmcids_from_pmids env pmid_batch = Inr r \<and> exactly_one_outcome pmid_batch r)) \<and>
   (0 < batch_size \<and> 0 < num_threads \<and> distinct id_list \<and>
    (\<forall>b \<in> set (batches_from id_list (nat batch_size) 0). complete_response env b) \<and>
    mset (as_completed (batches_from id_list (nat batch_size) 0)) =
      mset (batches_from id_list (nat batch_size) 0) \<longrightarrow>
      (\<exists>r w'. download_batch_parallel env as_completed None id_list batch_size num_threads
                 progress w = (Completed r, w') \<and> exactly_one_outcome id_list r))"
proof (intro conjI impI)
  assume "complete_response env pmid_batch"
  then show "\<exists>r. fetch_pmcids_from_pmids env pmid_batch = Inr r \<and> exactly_one_outcome pmid_batch r"
    by (rule fetch_pmcids_partition)
next
  assume h: "0 < batch_size \<and> 0 < num_threads \<and> distinct id_list \<and>
    (\<forall>b \<in> set (batches_from id_list (nat batch_size) 0). complete_response env b) \<and>
    mset (as_completed (batches_from id_list (nat batch_size) 0)) =
      mset (batches_from id_list (nat batch_size) 0)"
  then show "\<exists>r w'. download_batch_parallel env as_completed None id_list batch_size num_threads
                 progress w = (Completed r, w') \<and> exactly_one_outcome id_list r"
    using download_batch_parallel_partition by blast
qed

lemma cr12: "complete_response remote_two [''1'', ''2'']"
  by (auto simp: complete_response_def remote_two_def response_pmids_def)

lemma cr123: "complete_response remote_two [''123'']"
  by (simp add: complete_response_def remote_two_def response_pmids_def)

lemma batches3: "batches_from [''1'', ''2'', ''123''] 2 0 = [[''1'', ''2''], [''123'']]"
  by (simp add: batches_from.simps)

theorem outcome_partition_witness:
  "complete_response remote_two [''1'', ''2''] \<and>
   (\<exists>r. fetch_pmcids_from_pmids remote_two [''1'', ''2''] = Inr r \<and>
        exactly_one_outcome [''1'', ''2''] r) \<and>
   (0::int) < 2 \<and> distinct [''1'', ''2'', ''123''] \<and>
   batches_from [''1'', ''2'', ''123''] (nat 2) 0 = [[''1'', ''2''], [''123'']] \<and>
   complete_response remote_two [''123''] \<and>
   mset (rev [[''1'', ''2''], [''123'']]) = mset [[''1'', ''2''], [''123'']] \<and>
   (\<exists>r w'. download_batch_parallel remote_two rev None [''1'', ''2'', ''123''] 2 2 None empty_world =
             (Completed r, w') \<and> exactly_one_outcome [''1'', ''2'', ''123''] r)"
proof -
  note t = outcome_partition [of remote_two "[''1'', ''2'']" 2 2 "[''1'', ''2'', ''123'']" rev
      None empty_world]
  have d: "distinct [''1'', ''2'', ''123'']" by simp
  have m: "mset (rev [[''1'', ''2''], [''123'']]) = mset [[''1'', ''2''], [''123'']]"
    by simp
  from t cr12 have p1: "\<exists>r. fetch_pmcids_from_pmids remote_two [''1'', ''2''] = Inr r \<and>
        exactly_one_outcome [''1'', ''2''] r"
    by blast
  have h: "(0::int) < 2 \<and> (0::int) < 2 \<and> distinct [''1'', ''2'', ''123''] \<and>
    (\<forall>b \<in> set (batches_from [''1'', ''2'', ''123''] (nat 2) 0). complete_response remote_two b) \<and>
    mset (rev (batches_from [''1'', ''2'', ''123''] (nat 2) 0)) =
      mset (batches_from [''1'', ''2'', ''123''] (nat 2) 0)"
    using cr12 cr123 by (simp add: batches3)
  from t h have p2: "\<exists>r w'. download_batch_parallel remote_two rev None [''1'', ''2'', ''123''] 2 2 None empty_world =
             (Completed r, w') \<and> exactly_one_outcome [''1'', ''2'', ''123''] r"
    by blast
  show ?thesis using cr12 cr123 p1 p2 d m batches3 by simp
qed

lemma fetch_missing: "fetch_pmcids_from_pmids remote_missing [''1''] = Inr empty_outcome"
  by (simp add: fetch_pmcids_from_pmids_def remote_missing_def)

lemma batches1: "batches_from [''1''] (Suc 0) 0 = [[''1'']]"
  by (simp add: batches_from.simps)

lemma batches121: "batches_from [''1'', ''2'', ''1''] 2 0 = [[''1'', ''2''], [''1'']]"
  by (simp add: batches_from.simps)

lemma download_one: "download_article remote_two ''PMC7'' \<noteq> None"
  by (simp add: download_article_def str_replace.simps remote_two_def parse_pmc_xml_def
      extract_article_root_def article_one_def Let_def)

lemma fetch12:
  "\<exists>d. fetch_pmcids_from_pmids remote_two [''1'', ''2''] =
     Inr \<lparr>failed_pmids = [''2''], multiple_pmcids = [], retrieved_documents = [(''1'', d)]\<rparr>"
proof -
  from download_one obtain d0 where "download_article remote_two ''PMC7'' = Some d0" by blast
  then show ?thesis
    by (simp add: fetch_pmcids_from_pmids_def remote_two_def process_article_def empty_outcome_def
        Let_def)
qed

lemma fetch1:
  "fetch_pmcids_from_pmids remote_two [''1''] =
     Inr \<lparr>failed_pmids = [''1''], multiple_pmcids = [], retrieved_documents = []\<rparr>"
  by (simp add: fetch_pmcids_from_pmids_def remote_two_def process_article_def empty_outcome_def)

text \<open>
  The claim fails when the response leaves an identifier out: for the batch \<open>["1"]\<close>
  and a response without article records, both collections are empty, for the batch and
  for the whole run. It also fails when an identifier occurs in two batches of which
  one is resolved and the other fails as a whole: \<open>"1"\<close> ends as a key of the
  documents and as a member of the failed list.
\<close>

theorem outcome_partition_counterexample:
  "fetch_pmcids_from_pmids remote_missing [''1''] = Inr empty_outcome \<and>
   \<not> exactly_one_outcome [''1''] empty_outcome \<and>
   fst (download_batch_parallel remote_missing id None [''1''] 1 1 None empty_world) =
     Completed empty_outcome \<and>
   (case fst (download_batch_parallel remote_two id None [''1'', ''2'', ''1''] 2 1 None empty_world) of
      Completed r \<Rightarrow> ''1'' \<in> fst ` set (retrieved_documents r) \<and> ''1'' \<in> set (failed_pmids r)
    | Interrupted \<Rightarrow> False
    | Crashed exc \<Rightarrow> False)"
proof -
  have a: "\<not> exactly_one_outcome [''1''] empty_outcome"
    by (simp add: exactly_one_outcome_def empty_outcome_def)
  have b: "fst (download_batch_parallel remote_missing id None [''1''] 1 1 None empty_world) =
     Completed empty_outcome"
    using batches1
    by (simp add: download_batch_parallel_def make_batches_def fetch_missing Let_def
        merge_batch_def dict_update_def empty_outcome_def)
  from fetch12 obtain d where d: "fetch_pmcids_from_pmids remote_two [''1'', ''2''] =
     Inr \<lparr>failed_pmids = [''2''], multiple_pmcids = [], retrieved_documents = [(''1'', d)]\<rparr>"
    by blast
  have c: "fst (download_batch_parallel remote_two id None [''1'', ''2'', ''1''] 2 1 None empty_world) =
      Completed \<lparr>failed_pmids = [''2'', ''1''], multiple_pmcids = [],
                 retrieved_documents = [(''1'', d)]\<rparr>"
    using batches121
    by (simp add: download_batch_parallel_def make_batches_def d fetch1 Let_def
        merge_batch_def dict_update_def empty_outcome_def)
  show ?thesis using a b by (simp add: fetch_missing c)
qed

lemma process_article_cases:
  assumes "art_pmid a = Some q"
  obtains
    (no_ids) "art_ids a = None"
      "process_article env st a = (if q \<noteq> [] then st\<lparr>failed_pmids := failed_pmids st @ [q]\<rparr> else st)"
  | (no_pmc) ids where "art_ids a = Some ids" "filter (prefix ''PMC'') ids = []"
      "process_article env st a = st\<lparr>failed_pmids := failed_pmids st @ [q]\<rparr>"
  | (one_ok) ids c d where "art_ids a = Some ids" "filter (prefix ''PMC'') ids = [c]"
      "download_article env c = Some d"
      "process_article env st a =
         st\<lparr>retrieved_documents := AList.update q
               (d\<lparr>metadata := AList.update ''PMCID'' (PyStr c) (metadata d)\<rparr>)
               (retrieved_documents st)\<rparr>"
  | (one_fail) ids c where "art_ids a = Some ids" "filter (prefix ''PMC'') ids = [c]"
      "download_article env c = None"
      "process_article env st a = st\<lparr>failed_pmids := failed_pmids st @ [q]\<rparr>"
  | (many_ok) ids c cs d where "art_ids a = Some ids" "filter (prefix ''PMC'') ids = c # cs"
      "cs \<noteq> []" "download_article env c = Some d"
      "process_article env st a =
         st\<lparr>multiple_pmcids := AList.update q (c # cs) (multiple_pmcids st),
            retrieved_documents := AList.update q
               (d\<lparr>metadata := AList.update ''PMCID'' (PyStr c) (metadata d)\<rparr>)
               (retrieved_documents st)\<rparr>"
  | (many_fail) ids c cs where "art_ids a = Some ids" "filter (prefix ''PMC'') ids = c # cs"
      "cs \<noteq> []" "download_article env c = None"
      "process_article env st a =
         st\<lparr>multiple_pmcids := AList.update q (c # cs) (multiple_pmcids st),
            failed_pmids := failed_pmids st @ [q]\<rparr>"
proof (cases "art_ids a")
  case None
  with assms show ?thesis by (intro no_ids) (simp_all add: process_article_def)
next
  case (Some ids)
  show ?thesis
  proof (cases "filter (prefix ''PMC'') ids")
    case Nil
    with assms Some show ?thesis by (intro no_pmc) (simp_all add: process_article_def)
  next
    case (Cons c cs)
    show ?thesis
    proof (cases "download_article env c")
      case None
      show ?thesis
      proof (cases "cs = []")
        case True
        with assms Some Cons None show ?thesis
          by (intro one_fail) (simp_all add: process_article_def)
      next
        case False
        with assms Some Cons None show ?thesis
          by (intro many_fail) (simp_all add: process_article_def Let_def)
      qed
    next
      case d: (Some d)
      show ?thesis
      proof (cases "cs = []")
        case True
        with assms Some Cons d show ?thesis
          by (intro one_ok) (simp_all add: process_article_def)
      next
        case False
        with assms Some Cons d show ?thesis
          by (intro many_ok) (simp_all add: process_article_def Let_def)
      qed
    qed
  qed
qed

lemma process_article_other:
  assumes "art_pmid a = Some q" and "p \<noteq> q"
  shows "map_of (multiple_pmcids (process_article env st a)) p = map_of (multiple_pmcids st) p \<and>
         map_of (retrieved_documents (process_article env st a)) p =
           map_of (retrieved_documents st) p \<and>
         (p \<in> set (failed_pmids (process_article env st a))) = (p \<in> set (failed_pmids st))"
  using assms
  by (cases rule: process_article_cases [where env = env and st = st])
     (simp_all add: update_conv')

lemma process_article_own:
  assumes "art_pmid a = Some q"
    and "map_of (multiple_pmcids st) q = None"
    and "map_of (retrieved_documents st) q = None"
    and "q \<notin> set (failed_pmids st)"
    and "map_of (multiple_pmcids (process_article env st a)) q = Some pmcids"
  shows "1 < length pmcids \<and>
     (\<exists>ids. art_ids a = Some ids \<and> pmcids = filter (prefix ''PMC'') ids) \<and>
     (case download_article env (hd pmcids) of
        Some document \<Rightarrow>
          map_of (retrieved_documents (process_article env st a)) q =
            Some (document\<lparr>metadata := AList.update ''PMCID'' (PyStr (hd pmcids)) (metadata document)\<rparr>) \<and>
          q \<notin> set (failed_pmids (process_article env st a))
      | None \<Rightarrow>
          map_of (retrieved_documents (process_article env st a)) q = None \<and>
          q \<in> set (failed_pmids (process_article env st a)))"
  using assms(1)
proof (cases rule: process_article_cases [where env = env and st = st])
  case no_ids
  with assms(2,5) show ?thesis by (simp split: if_splits)
next
  case (no_pmc ids)
  with assms(2,5) show ?thesis by simp
next
  case (one_ok ids c d)
  with assms(2,5) show ?thesis by simp
next
  case (one_fail ids c)
  with assms(2,5) show ?thesis by simp
next
  case (many_ok ids c cs d)
  with assms(5) have "pmcids = c # cs" by (simp add: update_conv')
  with many_ok assms(4) show ?thesis by (cases cs) (simp_all add: update_conv')
next
  case (many_fail ids c cs)
  with assms(5) have "pmcids = c # cs" by (simp add: update_conv')
  with many_fail assms(3) show ?thesis by (cases cs) simp_all
qed

lemma response_pmids_snoc:
  "response_pmids (xs @ [x]) =
     response_pmids xs @ (case art_pmid x of None \<Rightarrow> [] | Some pmid \<Rightarrow> [pmid])"
  by (simp add: response_pmids_def)

lemma foldl_process_annotation:
  assumes "distinct (response_pmids arts)"
  shows "(\<forall>p. p \<notin> set (response_pmids arts) \<longrightarrow>
            map_of (multiple_pmcids (foldl (process_article env) empty_outcome arts)) p = None \<and>
            map_of (retrieved_documents (foldl (process_article env) empty_outcome arts)) p = None \<and>
            p \<notin> set (failed_pmids (foldl (process_article env) empty_outcome arts))) \<and>
         (\<forall>p pmcids.
            map_of (multiple_pmcids (foldl (process_article env) empty_outcome arts)) p = Some pmcids \<longrightarrow>
            1 < length pmcids \<and>
            (\<exists>a \<in> set arts. art_pmid a = Some p \<and>
               (\<exists>ids. art_ids a = Some ids \<and> pmcids = filter (prefix ''PMC'') ids)) \<and>
            (case download_article env (hd pmcids) of
               Some document \<Rightarrow>
                 map_of (retrieved_documents (foldl (process_article env) empty_outcome arts)) p =
                   Some (document\<lparr>metadata :=
                           AList.update ''PMCID'' (PyStr (hd pmcids)) (metadata document)\<rparr>) \<and>
                 p \<notin> set (failed_pmids (foldl (process_article env) empty_outcome arts))
             | None \<Rightarrow>
                 map_of (retrieved_documents (foldl (process_article env) empty_outcome arts)) p = None \<and>
                 p \<in> set (failed_pmids (foldl (process_article env) empty_outcome arts))))"
  using assms
proof (induction arts rule: rev_induct)
  case Nil
  show ?case by (simp add: empty_outcome_def response_pmids_def)
next
  case (snoc x xs)
  let ?st = "foldl (process_article env) empty_outcome xs"
  let ?st' = "process_article env ?st x"
  have f: "foldl (process_article env) empty_outcome (xs @ [x]) = ?st'" by simp
  from snoc.prems have dxs: "distinct (response_pmids xs)"
    by (simp add: response_pmids_snoc)
  note IH = snoc.IH [OF dxs]
  show ?case
  proof (cases "art_pmid x")
    case None
    then have same: "?st' = ?st" by (rule process_article_no_pmid)
    have r: "response_pmids (xs @ [x]) = response_pmids xs"
      using None by (simp add: response_pmids_snoc)
    show ?thesis unfolding f same r using IH by (auto split: option.splits)
  next
    case (Some q)
    have r: "response_pmids (xs @ [x]) = response_pmids xs @ [q]"
      using Some by (simp add: response_pmids_snoc)
    with snoc.prems have qnew: "q \<notin> set (response_pmids xs)" by simp
    with IH have fresh: "map_of (multiple_pmcids ?st) q = None"
      "map_of (retrieved_documents ?st) q = None" "q \<notin> set (failed_pmids ?st)"
      by blast+
    have part1: "\<forall>p. p \<notin> set (response_pmids (xs @ [x])) \<longrightarrow>
            map_of (multiple_pmcids ?st') p = None \<and>
            map_of (retrieved_documents ?st') p = None \<and>
            p \<notin> set (failed_pmids ?st')"
    proof (intro allI impI)
      fix p assume "p \<notin> set (response_pmids (xs @ [x]))"
      then have pq: "p \<noteq> q" and pxs: "p \<notin> set (response_pmids xs)" by (simp_all add: r)
      from process_article_other [OF Some pq, of env ?st] IH pxs
      show "map_of (multiple_pmcids ?st') p = None \<and>
            map_of (retrieved_documents ?st') p = None \<and>
            p \<notin> set (failed_pmids ?st')"
        by simp
    qed
    have part2: "\<forall>p pmcids. map_of (multiple_pmcids ?st') p = Some pmcids \<longrightarrow>
            1 < length pmcids \<and>
            (\<exists>a \<in> set (xs @ [x]). art_pmid a = Some p \<and>
               (\<exists>ids. art_ids a = Some ids \<and> pmcids = filter (prefix ''PMC'') ids)) \<and>
            (case download_article env (hd pmcids) of
               Some document \<Rightarrow>
                 map_of (retrieved_documents ?st') p =
                   Some (document\<lparr>metadata :=
                           AList.update ''PMCID'' (PyStr (hd pmcids)) (metadata document)\<rparr>) \<and>
                 p \<notin> set (failed_pmids ?st')
             | None \<Rightarrow>
                 map_of (retrieved_documents ?st') p = None \<and> p \<in> set (failed_pmids ?st'))"
    proof (intro allI impI)
      fix p pmcids assume m: "map_of (multiple_pmcids ?st') p = Some pmcids"
      show "1 < length pmcids \<and>
            (\<exists>a \<in> set (xs @ [x]). art_pmid a = Some p \<and>
               (\<exists>ids. art_ids a = Some ids \<and> pmcids = filter (prefix ''PMC'') ids)) \<and>
            (case download_article env (hd pmcids) of
               Some document \<Rightarrow>
                 map_of (retrieved_documents ?st') p =
                   Some (document\<lparr>metadata :=
                           AList.update ''PMCID'' (PyStr (hd pmcids)) (metadata document)\<rparr>) \<and>
                 p \<notin> set (failed_pmids ?st')
             | None \<Rightarrow>
                 map_of (retrieved_documents ?st') p = None \<and> p \<in> set (failed_pmids ?st'))"
      proof (cases "p = q")
        case True
        from process_article_own [OF Some fresh, of env pmcids] m True Some
        show ?thesis by auto
      next
        case False
        note o = process_article_other [OF Some False, of env ?st]
        from m have "map_of (multiple_pmcids ?st) p = Some pmcids" by (simp add: o)
        with IH have "1 < length pmcids \<and>
            (\<exists>a \<in> set xs. art_pmid a = Some p \<and>
               (\<exists>ids. art_ids a = Some ids \<and> pmcids = filter (prefix ''PMC'') ids)) \<and>
            (case download_article env (hd pmcids) of
               Some document \<Rightarrow>
                 map_of (retrieved_documents ?st) p =
                   Some (document\<lparr>metadata :=
                           AList.update ''PMCID'' (PyStr (hd pmcids)) (metadata document)\<rparr>) \<and>
                 p \<notin> set (failed_pmids ?st)
             | None \<Rightarrow>
                 map_of (retrieved_documents ?st) p = None \<and> p \<in> set (failed_pmids ?st))"
          by blast
        then show ?thesis by (auto simp: o split: option.splits)
      qed
    qed
    show ?thesis unfolding f using part1 part2 by blast
  qed
qed

text \<open>
  C4, as the code has it. The mapping is recorded before the download is tried, so a key
  of \<open>multiple_pmcids_map\<close> is a key of the documents only when the download of the
  first candidate succeeds. For a batch whose response has no PMID twice: the value
  recorded for a PMID is the full list of the PMC-prefixed identifiers of its article
  record, in order, and has more than one element; when the download of the first
  candidate gives a document, the PMID is a key of the documents, its document is that
  one with \<open>PMCID\<close> set to the first candidate, and the PMID is not in the failed
  list; when that download fails, the PMID is in the failed list and not a key of the
  documents.
\<close>

theorem multiple_pmcids_annotation:
  assumes "fetch_pmcids_from_pmids env pmid_batch = Inr r"
    and "distinct (response_pmids (response_articles env pmid_batch))"
    and "map_of (multiple_pmcids r) pmid = Some pmcids"
  shows "1 < length pmcids \<and>
     (\<exists>article \<in> set (response_articles env pmid_batch). art_pmid article = Some pmid \<and>
        (\<exists>ids. art_ids article = Some ids \<and> pmcids = filter (prefix ''PMC'') ids)) \<and>
     (case download_article env (hd pmcids) of
        Some document \<Rightarrow>
          map_of (retrieved_documents r) pmid =
            Some (document\<lparr>metadata := AList.update ''PMCID'' (PyStr (hd pmcids)) (metadata document)\<rparr>) \<and>
          pmid \<notin> set (failed_pmids r)
      | None \<Rightarrow> map_of (retrieved_documents r) pmid = None \<and> pmid \<in> set (failed_pmids r))"
proof -
  have r: "r = foldl (process_article env) empty_outcome (response_articles env pmid_batch)"
  proof (cases "fetch_and_parse_pubmed env (str_join '','' pmid_batch)")
    case FetchFailed
    with assms(1,3) show ?thesis
      by (auto simp: fetch_pmcids_from_pmids_def empty_outcome_def)
  next
    case NotAMapping
    with assms(1) show ?thesis by (simp add: fetch_pmcids_from_pmids_def)
  next
    case (Records entry)
    with assms(1) show ?thesis
      by (cases entry) (auto simp: fetch_pmcids_from_pmids_def response_articles_def)
  qed
  from foldl_process_annotation [OF assms(2), of env] assms(3)
  show ?thesis unfolding r by blast
qed

lemma download_pmc1: "download_article remote_two ''PMC1'' \<noteq> None"
  by (simp add: download_article_def str_replace.simps remote_two_def parse_pmc_xml_def
      extract_article_root_def article_one_def Let_def)

lemma response_123:
  "response_articles remote_two [''123''] =
     [PubmedArticle (Some ''123'') (Some [''10.1/x'', ''PMC1'', ''PMC2''])]"
  by (simp add: response_articles_def remote_two_def)

theorem multiple_pmcids_annotation_witness:
  "\<exists>r d. fetch_pmcids_from_pmids remote_two [''123''] = Inr r \<and>
     distinct (response_pmids (response_articles remote_two [''123''])) \<and>
     map_of (multiple_pmcids r) ''123'' = Some [''PMC1'', ''PMC2''] \<and>
     download_article remote_two ''PMC1'' = Some d \<and>
     map_of (retrieved_documents r) ''123'' =
       Some (d\<lparr>metadata := AList.update ''PMCID'' (PyStr ''PMC1'') (metadata d)\<rparr>) \<and>
     ''123'' \<notin> set (failed_pmids r)"
proof -
  from download_pmc1 obtain d where d: "download_article remote_two ''PMC1'' = Some d" by blast
  define r where "r = foldl (process_article remote_two) empty_outcome
      [PubmedArticle (Some ''123'') (Some [''10.1/x'', ''PMC1'', ''PMC2''])]"
  have "fetch_and_parse_pubmed remote_two ''123'' =
      Records (Some [PubmedArticle (Some ''123'') (Some [''10.1/x'', ''PMC1'', ''PMC2''])])"
    by (simp add: remote_two_def)
  then have f: "fetch_pmcids_from_pmids remote_two [''123''] = Inr r"
    by (simp add: fetch_pmcids_from_pmids_def r_def Let_def)
  have dist: "distinct (response_pmids (response_articles remote_two [''123'']))"
    by (simp add: response_123 response_pmids_def)
  have m: "map_of (multiple_pmcids r) ''123'' = Some [''PMC1'', ''PMC2'']"
    by (simp add: r_def process_article_def d empty_outcome_def Let_def)
  from multiple_pmcids_annotation [OF f dist m] d
  have "map_of (retrieved_documents r) ''123'' =
       Some (d\<lparr>metadata := AList.update ''PMCID'' (PyStr ''PMC1'') (metadata d)\<rparr>) \<and>
     ''123'' \<notin> set (failed_pmids r)"
    by simp
  with f dist m d show ?thesis by blast
qed

text \<open>
  The claim fails when the first candidate cannot be downloaded: \<open>"123"\<close> is a key of
  the mapping and in the failed list, and the documents are empty.
\<close>

theorem multiple_pmcids_subset_counterexample:
  "fetch_pmcids_from_pmids remote_unavailable [''123''] =
     Inr \<lparr>failed_pmids = [''123''],
          multiple_pmcids = [(''123'', [''PMC1'', ''PMC2''])],
          retrieved_documents = []\<rparr>"
  by (simp add: fetch_pmcids_from_pmids_def remote_unavailable_def process_article_def
      download_article_def str_replace.simps parse_pmc_xml_def empty_outcome_def Let_def)

lemma print_line_files: "files (print_line line w) = files w"
  by (simp add: print_line_def)

section \<open>The interrupted download\<close>

text \<open>
  C5, evaluated. Three identifiers in two batches; the first batch completes (its
  checkpoint is written by the progress callback) and the interrupt arrives before the
  second. \<open>main\<close> prints that it is saving progress and returns 1; none of the three
  final-result files exists afterwards, only the files of checkpoint 0.
\<close>

theorem main_interrupt_saves_no_final_results:
  "snd (main_download remote_two id (Some 1) ''0.10 s'' ''out'' 32 [''1'', ''2'', ''123''] 2 2
          empty_world) = 1 \<and>
   files (fst (main_download remote_two id (Some 1) ''0.10 s'' ''out'' 32 [''1'', ''2'', ''123''] 2 2
          empty_world)) (path_join ''out'' ''documents_final.pkl'') = None \<and>
   files (fst (main_download remote_two id (Some 1) ''0.10 s'' ''out'' 32 [''1'', ''2'', ''123''] 2 2
          empty_world)) (path_join ''out'' ''failed_pmids_final.pkl'') = None \<and>
   files (fst (main_download remote_two id (Some 1) ''0.10 s'' ''out'' 32 [''1'', ''2'', ''123''] 2 2
          empty_world)) (path_join ''out'' ''multiple_pmcids_final.pkl'') = None \<and>
   files (fst (main_download remote_two id (Some 1) ''0.10 s'' ''out'' 32 [''1'', ''2'', ''123''] 2 2
          empty_world)) (path_join ''out'' (checkpoint_filename ''failed_pmids'' 0)) =
     Some (PickledPmids [''2'']) \<and>
   last (printed (fst (main_download remote_two id (Some 1) ''0.10 s'' ''out'' 32
          [''1'', ''2'', ''123''] 2 2 empty_world))) =
     ''\<newline>Process interrupted by user. Saving progress...''"
proof -
  from fetch12 obtain d where d: "fetch_pmcids_from_pmids remote_two [''1'', ''2''] =
     Inr \<lparr>failed_pmids = [''2''], multiple_pmcids = [], retrieved_documents = [(''1'', d)]\<rparr>"
    by blast
  define w1 where "w1 = print_line (''\<newline>Starting download with '' @ str_int 2 @
      '' threads, batch size '' @ str_int 2 @ ''...'') empty_world"
  define w2 where "w2 = save_checkpoint ''out'' 0 2 [(''1'', d)] [''2''] [] w1"
  have run: "download_batch_parallel remote_two id (Some 1) [''1'', ''2'', ''123''] 2 2
      (Some (progress_callback ''out'' 32)) w1 = (Interrupted, w2)"
    using batches3
    by (simp add: download_batch_parallel_def make_batches_def d Let_def merge_batch_def
        dict_update_def empty_outcome_def progress_callback_def w2_def)
  have m: "main_download remote_two id (Some 1) ''0.10 s'' ''out'' 32 [''1'', ''2'', ''123''] 2 2
      empty_world = (print_line ''\<newline>Process interrupted by user. Saving progress...'' w2, 1)"
    using run by (simp add: main_download_def Let_def w1_def)
  have f: "files w1 = Map.empty" by (simp add: w1_def print_line_def empty_world_def)
  show ?thesis
    unfolding m
    by (simp add: print_line_files w2_def files_save_checkpoint f path_join_def
        checkpoint_filename_def) (simp add: print_line_def)
qed

end
